theory Spec2Isabelle
  imports Complex_Main
begin

section \<open>Conventions of the embedding\<close>

text \<open>
  The TypeScript sources are embedded function by function. A JavaScript \<open>number\<close> is
  modelled by a \<^typ>\<open>real\<close> (rounding and the infinities are outside the model, and so is
  \<open>NaN\<close> except in the interpolated state of the keyframe engine, which can hold it);
  array indices and counters are \<^typ>\<open>nat\<close>, and \<^typ>\<open>int\<close> where the source can produce
  \<open>-1\<close>. An optional field is an \<^typ>\<open>'a option\<close>. A field \<open>f\<close> of an interface is written
  with a short prefix naming the interface (\<open>seg_\<close>, \<open>sec_\<close>, \<open>tr_\<close>, \<open>ps_\<close>, \<open>st_\<close>, \<open>tc_\<close>,
  \<open>step_\<close>, \<open>el_\<close>, \<open>ad_\<close>, \<open>kf_\<close>, \<open>is_\<close>), because several interfaces share field names.
  A \<open>TypeError\<close> raised by reading a property of \<open>undefined\<close> is the value \<open>Inl TypeError\<close>.
\<close>

datatype error = TypeError

section \<open>Script and timeline types (src/types/index.ts)\<close>

datatype PacingType = PauseBefore | PauseAfter | Normal

datatype TransitionType =
  Crossfade | SlideLeft | ZoomOutIn | Cut | PerspectivePush | ParallaxWipe

record NarrationSegment =
  seg_id :: string
  seg_text :: string
  seg_stepId :: string
  seg_estimatedDuration :: real
  seg_startTime :: real
  seg_endTime :: real
  seg_emphasis :: "string list option"
  seg_pacing :: PacingType

record SectionScript =
  sec_sectionId :: string
  sec_fullText :: string
  sec_segments :: "NarrationSegment list"
  sec_totalDuration :: real

record SectionTransition =
  tr_fromSectionId :: string
  tr_toSectionId :: string
  tr_type :: TransitionType
  tr_duration :: real

record PresentationScript =
  ps_paperTitle :: string
  ps_sections :: "SectionScript list"
  ps_transitions :: "SectionTransition list"
  ps_totalDuration :: real

datatype Phase = PhaseSection | PhaseTransition | PhaseComplete

record TimelineState =
  st_phase :: Phase
  st_sectionIndex :: int
  st_segmentIndex :: int
  st_sectionProgress :: real
  st_segmentProgress :: real
  st_activeStepId :: string
  st_currentText :: string
  st_emphasis :: "string list"
  st_globalTime :: real
  st_fromSection :: "int option"
  st_toSection :: "int option"
  st_transitionProgress :: "real option"

section \<open>TimelineController (src/lib/three-scene.ts, lines 670-913)\<close>

text \<open>
  The listeners of the controller are callbacks of the host; the model keeps them as
  opaque values of a type \<open>'l\<close>, in insertion order and without duplicates, as a
  JavaScript \<open>Set\<close> iterates them. A listener only observes the state it is handed.
\<close>

record 'l TimelineController =
  tc_currentTime :: real
  tc_speed :: real
  tc_playing :: bool
  tc_rafId :: "nat option"
  tc_lastTimestamp :: "real option"
  tc_listeners :: "'l list"
  tc_sectionScripts :: "SectionScript list"
  tc_transitions :: "SectionTransition list"
  tc_totalDuration :: real
  tc_sectionStartTimes :: "real list"
  tc_transitionStartTimes :: "real list"

definition COMPLETE_STATE :: TimelineState where
  "COMPLETE_STATE =
     \<lparr> st_phase = PhaseComplete, st_sectionIndex = 0, st_segmentIndex = 0,
       st_sectionProgress = 1, st_segmentProgress = 1,
       st_activeStepId = [], st_currentText = [], st_emphasis = [],
       st_globalTime = 0,
       st_fromSection = None, st_toSection = None, st_transitionProgress = None \<rparr>"

text \<open>
  One iteration of the loop of \<open>computeStartTimes\<close>: the loop state is the running offset
  and the two arrays being pushed to.
\<close>

definition computeStartTimes_step ::
  "SectionScript list \<Rightarrow> SectionTransition list \<Rightarrow> nat \<Rightarrow>
     real \<times> real list \<times> real list \<Rightarrow> real \<times> real list \<times> real list" where
  "computeStartTimes_step secs trs i acc =
     (case acc of (offset, sst, tst) \<Rightarrow>
        let sst1 = sst @ [offset];
            offset1 = offset + sec_totalDuration (secs ! i)
        in if i < length trs
           then (offset1 + tr_duration (trs ! i), sst1, tst @ [offset1])
           else (offset1, sst1, tst))"

definition computeStartTimes ::
  "SectionScript list \<Rightarrow> SectionTransition list \<Rightarrow> real \<times> real list \<times> real list" where
  "computeStartTimes secs trs =
     fold (computeStartTimes_step secs trs) [0 ..< length secs] (0, [], [])"

definition TimelineController_new :: "PresentationScript \<Rightarrow> 'l TimelineController" where
  "TimelineController_new script =
     (case computeStartTimes (ps_sections script) (ps_transitions script) of
        (offset, sst, tst) \<Rightarrow>
          \<lparr> tc_currentTime = 0, tc_speed = 1, tc_playing = False, tc_rafId = None,
            tc_lastTimestamp = None, tc_listeners = [],
            tc_sectionScripts = ps_sections script,
            tc_transitions = ps_transitions script,
            tc_totalDuration = ps_totalDuration script,
            tc_sectionStartTimes = sst,
            tc_transitionStartTimes = tst \<rparr>)"

text \<open>
  The inner loop of \<open>getStateAtTime\<close> that finds the active segment. It scans the
  segments from index \<open>s\<close>; the first one whose half-open interval holds the section time
  wins (\<open>break\<close>), and the last segment is taken when none does. On an empty array the
  loop body never runs and \<open>activeSegment\<close> stays \<open>undefined\<close>: the result is \<open>None\<close>.
\<close>

fun findActiveSegment ::
  "real \<Rightarrow> nat \<Rightarrow> NarrationSegment list \<Rightarrow> (nat \<times> NarrationSegment) option" where
  "findActiveSegment sectionTime s [] = None"
| "findActiveSegment sectionTime s (seg # rest) =
     (if sectionTime \<ge> seg_startTime seg \<and> sectionTime < seg_endTime seg then Some (s, seg)
      else if rest = [] then Some (s, seg)
      else findActiveSegment sectionTime (Suc s) rest)"

definition sectionState ::
  "nat \<Rightarrow> SectionScript \<Rightarrow> real \<Rightarrow> real \<Rightarrow> error + TimelineState" where
  "sectionState i script sectionStart clampedTime =
     (let sectionTime = clampedTime - sectionStart;
          sectionProgress = (if sec_totalDuration script > 0
                             then sectionTime / sec_totalDuration script else 0)
      in case findActiveSegment sectionTime 0 (sec_segments script) of
           None \<Rightarrow> Inl TypeError
         | Some (segmentIndex, activeSegment) \<Rightarrow>
             let segmentDuration = seg_endTime activeSegment - seg_startTime activeSegment;
                 segmentProgress =
                   (if segmentDuration > 0
                    then min 1 ((sectionTime - seg_startTime activeSegment) / segmentDuration)
                    else 0)
             in Inr \<lparr> st_phase = PhaseSection, st_sectionIndex = int i,
                      st_segmentIndex = int segmentIndex,
                      st_sectionProgress = sectionProgress,
                      st_segmentProgress = segmentProgress,
                      st_activeStepId = seg_stepId activeSegment,
                      st_currentText = seg_text activeSegment,
                      st_emphasis = (case seg_emphasis activeSegment of
                                       None \<Rightarrow> [] | Some e \<Rightarrow> e),
                      st_globalTime = clampedTime,
                      st_fromSection = None, st_toSection = None,
                      st_transitionProgress = None \<rparr>)"

definition transitionState ::
  "nat \<Rightarrow> SectionTransition \<Rightarrow> real \<Rightarrow> real \<Rightarrow> TimelineState" where
  "transitionState i transition transitionStart clampedTime =
     (let transitionProgress =
            (if tr_duration transition > 0
             then (clampedTime - transitionStart) / tr_duration transition else 0)
      in \<lparr> st_phase = PhaseTransition, st_sectionIndex = int i, st_segmentIndex = 0,
           st_sectionProgress = 1, st_segmentProgress = 1,
           st_activeStepId = [], st_currentText = [], st_emphasis = [],
           st_globalTime = clampedTime,
           st_fromSection = Some (int i), st_toSection = Some (int i + 1),
           st_transitionProgress = Some transitionProgress \<rparr>)"

text \<open>
  The outer loop of \<open>getStateAtTime\<close> over the section indices still to visit; the empty
  list is the fall-through after the loop.
\<close>

fun scanPartitions :: "'l TimelineController \<Rightarrow> real \<Rightarrow> nat list \<Rightarrow> error + TimelineState" where
  "scanPartitions c clampedTime [] = Inr (COMPLETE_STATE \<lparr> st_globalTime := clampedTime \<rparr>)"
| "scanPartitions c clampedTime (i # is) =
     (let sectionStart = tc_sectionStartTimes c ! i;
          script = tc_sectionScripts c ! i;
          sectionEnd = sectionStart + sec_totalDuration script
      in if clampedTime \<ge> sectionStart \<and> clampedTime < sectionEnd
         then sectionState i script sectionStart clampedTime
         else if i < length (tc_transitions c)
                 \<and> clampedTime \<ge> tc_transitionStartTimes c ! i
                 \<and> clampedTime < tc_transitionStartTimes c ! i + tr_duration (tc_transitions c ! i)
         then Inr (transitionState i (tc_transitions c ! i) (tc_transitionStartTimes c ! i) clampedTime)
         else scanPartitions c clampedTime is)"

definition getStateAtTime :: "'l TimelineController \<Rightarrow> real \<Rightarrow> error + TimelineState" where
  "getStateAtTime c time =
     (if time \<ge> tc_totalDuration c
      then Inr (COMPLETE_STATE \<lparr> st_globalTime := tc_totalDuration c,
                                 st_sectionIndex := int (length (tc_sectionScripts c)) - 1 \<rparr>)
      else scanPartitions c (max 0 time) [0 ..< length (tc_sectionScripts c)])"

subsection \<open>The host's animation-frame facility\<close>

text \<open>
  \<open>requestAnimationFrame\<close> and \<open>cancelAnimationFrame\<close> belong to the browser. The model
  keeps what the controller can observe of them: the handles of the callbacks requested
  and not yet run or cancelled, oldest first, and the next handle to hand out. Every
  callback the controller requests is its own \<open>tick\<close>.
\<close>

record host =
  h_pending :: "nat list"
  h_nextId :: nat

definition requestAnimationFrame :: "host \<Rightarrow> nat \<times> host" where
  "requestAnimationFrame h =
     (h_nextId h, h \<lparr> h_pending := h_pending h @ [h_nextId h], h_nextId := Suc (h_nextId h) \<rparr>)"

definition cancelAnimationFrame :: "nat \<Rightarrow> host \<Rightarrow> host" where
  "cancelAnimationFrame rid h = h \<lparr> h_pending := removeAll rid (h_pending h) \<rparr>"

subsection \<open>Notification and transport controls\<close>

type_synonym 'l notifications = "('l \<times> TimelineState) list"

definition notify :: "'l TimelineController \<Rightarrow> error + 'l notifications" where
  "notify c =
     (case getStateAtTime c (tc_currentTime c) of
        Inl e \<Rightarrow> Inl e
      | Inr state \<Rightarrow> Inr (map (\<lambda>listener. (listener, state)) (tc_listeners c)))"

text \<open>
  \<open>tick\<close> mutates the controller before it notifies, so the model returns the controller
  and host as they are left together with what the call delivered, or the error it threw.
  \<open>tick_advanced\<close> is the controller after the first statements of \<open>tick\<close>, which take
  the delta since the previous tick (zero when there is none) and advance the
  accumulated time by \<open>delta * speed\<close>.
\<close>

definition tick_advanced :: "real \<Rightarrow> 'l TimelineController \<Rightarrow> 'l TimelineController" where
  "tick_advanced timestamp c =
     (let lastTimestamp = (case tc_lastTimestamp c of None \<Rightarrow> timestamp | Some l \<Rightarrow> l);
          delta = (timestamp - lastTimestamp) / 1000
      in c \<lparr> tc_lastTimestamp := Some timestamp,
             tc_currentTime := tc_currentTime c + delta * tc_speed c \<rparr>)"

definition tick ::
  "real \<Rightarrow> 'l TimelineController \<times> host \<Rightarrow>
     ('l TimelineController \<times> host) \<times> (error + 'l notifications)" where
  "tick timestamp ch =
     (case ch of (c, h) \<Rightarrow>
        let c1 = tick_advanced timestamp c
        in if tc_currentTime c1 \<ge> tc_totalDuration c1
           then let c2 = c1 \<lparr> tc_currentTime := tc_totalDuration c1,
                                tc_playing := False, tc_rafId := None \<rparr>
                in ((c2, h), notify c2)
           else (case notify c1 of
                   Inl e \<Rightarrow> ((c1, h), Inl e)
                 | Inr delivered \<Rightarrow>
                     if tc_playing c1
                     then (case requestAnimationFrame h of
                             (rid, h1) \<Rightarrow> ((c1 \<lparr> tc_rafId := Some rid \<rparr>, h1), Inr delivered))
                     else ((c1, h), Inr delivered)))"

definition play :: "'l TimelineController \<times> host \<Rightarrow> 'l TimelineController \<times> host" where
  "play ch =
     (case ch of (c, h) \<Rightarrow>
        if tc_playing c then (c, h)
        else let c1 = (if tc_currentTime c \<ge> tc_totalDuration c
                       then c \<lparr> tc_currentTime := 0 \<rparr> else c)
             in case requestAnimationFrame h of
                  (rid, h1) \<Rightarrow>
                    (c1 \<lparr> tc_playing := True, tc_lastTimestamp := None, tc_rafId := Some rid \<rparr>, h1))"

definition pause :: "'l TimelineController \<times> host \<Rightarrow> 'l TimelineController \<times> host" where
  "pause ch =
     (case ch of (c, h) \<Rightarrow>
        let c1 = c \<lparr> tc_playing := False \<rparr>
        in case tc_rafId c1 of
             Some rid \<Rightarrow> (c1 \<lparr> tc_rafId := None, tc_lastTimestamp := None \<rparr>,
                          cancelAnimationFrame rid h)
           | None \<Rightarrow> (c1 \<lparr> tc_lastTimestamp := None \<rparr>, h))"

definition seek ::
  "real \<Rightarrow> 'l TimelineController \<Rightarrow> 'l TimelineController \<times> (error + 'l notifications)" where
  "seek time c =
     (let c1 = c \<lparr> tc_currentTime := max 0 (min time (tc_totalDuration c)),
                    tc_lastTimestamp := None \<rparr>
      in (c1, notify c1))"

definition seekToSection ::
  "int \<Rightarrow> 'l TimelineController \<Rightarrow> 'l TimelineController \<times> (error + 'l notifications)" where
  "seekToSection sectionIndex c =
     (if sectionIndex \<ge> 0 \<and> sectionIndex < int (length (tc_sectionStartTimes c))
      then seek (tc_sectionStartTimes c ! nat sectionIndex) c
      else (c, Inr []))"

definition setSpeed :: "real \<Rightarrow> 'l TimelineController \<Rightarrow> 'l TimelineController" where
  "setSpeed speed c = c \<lparr> tc_speed := speed \<rparr>"

definition subscribe :: "'l \<Rightarrow> 'l TimelineController \<Rightarrow> 'l TimelineController" where
  "subscribe listener c =
     (if listener \<in> set (tc_listeners c) then c
      else c \<lparr> tc_listeners := tc_listeners c @ [listener] \<rparr>)"

definition unsubscribe :: "'l \<Rightarrow> 'l TimelineController \<Rightarrow> 'l TimelineController" where
  "unsubscribe listener c = c \<lparr> tc_listeners := removeAll listener (tc_listeners c) \<rparr>"

definition destroy :: "'l TimelineController \<times> host \<Rightarrow> 'l TimelineController \<times> host" where
  "destroy ch = (case pause ch of (c, h) \<Rightarrow> (c \<lparr> tc_listeners := [] \<rparr>, h))"

subsection \<open>Runs of the controller under the host's event loop\<close>

text \<open>
  Everything happens in one thread: a run is a sequence of events, each a call of a
  control method or an animation frame of the host. A frame with timestamp \<open>ts\<close> runs the
  callbacks pending when it starts, in the order they were requested; a callback
  requested meanwhile waits for the next frame. The world keeps, in order, every state
  handed to a listener.
\<close>

datatype 'l event =
    Play | Pause | Seek real | SeekToSection int | SetSpeed real
  | Subscribe 'l | Unsubscribe 'l | Destroy | Frame real

record 'l world =
  w_ctl :: "'l TimelineController"
  w_host :: host
  w_delivered :: "'l notifications"

definition delivered_of :: "error + 'l notifications \<Rightarrow> 'l notifications" where
  "delivered_of r = (case r of Inl e \<Rightarrow> [] | Inr ns \<Rightarrow> ns)"

definition run_tick :: "real \<Rightarrow> 'l world \<Rightarrow> 'l world" where
  "run_tick ts w =
     (case tick ts (w_ctl w, w_host w) of
        ((c, h), r) \<Rightarrow>
          \<lparr> w_ctl = c, w_host = h, w_delivered = w_delivered w @ delivered_of r \<rparr>)"

definition frame :: "real \<Rightarrow> 'l world \<Rightarrow> 'l world" where
  "frame ts w =
     fold (\<lambda>rid. run_tick ts) (h_pending (w_host w))
          (w \<lparr> w_host := (w_host w) \<lparr> h_pending := [] \<rparr> \<rparr>)"

fun dispatch :: "'l event \<Rightarrow> 'l world \<Rightarrow> 'l world" where
  "dispatch Play w =
     (case play (w_ctl w, w_host w) of (c, h) \<Rightarrow> w \<lparr> w_ctl := c, w_host := h \<rparr>)"
| "dispatch Pause w =
     (case pause (w_ctl w, w_host w) of (c, h) \<Rightarrow> w \<lparr> w_ctl := c, w_host := h \<rparr>)"
| "dispatch (Seek t) w =
     (case seek t (w_ctl w) of
        (c, r) \<Rightarrow> w \<lparr> w_ctl := c, w_delivered := w_delivered w @ delivered_of r \<rparr>)"
| "dispatch (SeekToSection k) w =
     (case seekToSection k (w_ctl w) of
        (c, r) \<Rightarrow> w \<lparr> w_ctl := c, w_delivered := w_delivered w @ delivered_of r \<rparr>)"
| "dispatch (SetSpeed s) w = w \<lparr> w_ctl := setSpeed s (w_ctl w) \<rparr>"
| "dispatch (Subscribe l) w = w \<lparr> w_ctl := subscribe l (w_ctl w) \<rparr>"
| "dispatch (Unsubscribe l) w = w \<lparr> w_ctl := unsubscribe l (w_ctl w) \<rparr>"
| "dispatch Destroy w =
     (case destroy (w_ctl w, w_host w) of (c, h) \<Rightarrow> w \<lparr> w_ctl := c, w_host := h \<rparr>)"
| "dispatch (Frame ts) w = frame ts w"

definition run :: "'l event list \<Rightarrow> 'l world \<Rightarrow> 'l world" where
  "run evs w = fold dispatch evs w"

definition initial_world :: "PresentationScript \<Rightarrow> 'l world" where
  "initial_world script =
     \<lparr> w_ctl = TimelineController_new script,
       w_host = \<lparr> h_pending = [], h_nextId = 0 \<rparr>,
       w_delivered = [] \<rparr>"

subsection \<open>The data-model invariants and the spans of the timeline\<close>

text \<open>
  The invariant of a \<open>PresentationScript\<close> (one transition between each two consecutive
  sections, and a total that is the sum of all durations), and the spans
  \<open>[sectionStart, sectionEnd)\<close> and \<open>[transitionStart, transitionEnd)\<close> that
  \<open>getStateAtTime\<close> tests, in the order in which its loop visits them.
\<close>

definition script_invariant :: "PresentationScript \<Rightarrow> bool" where
  "script_invariant p =
     (length (ps_transitions p) = length (ps_sections p) - 1 \<and>
      ps_totalDuration p =
        sum_list (map sec_totalDuration (ps_sections p))
        + sum_list (map tr_duration (ps_transitions p)))"

definition sectionSpan :: "'l TimelineController \<Rightarrow> nat \<Rightarrow> real \<times> real" where
  "sectionSpan c i =
     (tc_sectionStartTimes c ! i,
      tc_sectionStartTimes c ! i + sec_totalDuration (tc_sectionScripts c ! i))"

definition transitionSpan :: "'l TimelineController \<Rightarrow> nat \<Rightarrow> real \<times> real" where
  "transitionSpan c i =
     (tc_transitionStartTimes c ! i,
      tc_transitionStartTimes c ! i + tr_duration (tc_transitions c ! i))"

definition spansAt :: "'l TimelineController \<Rightarrow> nat \<Rightarrow> (real \<times> real) list" where
  "spansAt c i =
     (if i < length (tc_transitions c) then [sectionSpan c i, transitionSpan c i]
      else [sectionSpan c i])"

definition spans :: "'l TimelineController \<Rightarrow> (real \<times> real) list" where
  "spans c = concat (map (spansAt c) [0 ..< length (tc_sectionScripts c)])"

text \<open>
  \<open>tiles a xs b\<close>: the spans \<open>xs\<close>, in order, start at \<open>a\<close>, each starts where the one
  before it ends, and the last ends at \<open>b\<close>.
\<close>

fun tiles :: "real \<Rightarrow> (real \<times> real) list \<Rightarrow> real \<Rightarrow> bool" where
  "tiles a [] b = (a = b)"
| "tiles a (x # xs) b = (fst x = a \<and> tiles (snd x) xs b)"

text \<open>Closed forms of the offsets, used in the proofs only.\<close>

definition sectionsBefore :: "SectionScript list \<Rightarrow> nat \<Rightarrow> real" where
  "sectionsBefore secs i = (\<Sum>j<i. sec_totalDuration (secs ! j))"

definition transitionsBefore :: "SectionTransition list \<Rightarrow> nat \<Rightarrow> real" where
  "transitionsBefore trs i = (\<Sum>j<i. tr_duration (trs ! j))"

text \<open>
  The invariant of a \<open>SectionScript\<close>: the segments are sorted ascending by \<open>startTime\<close>,
  contiguous, and cover \<open>[0, totalDuration)\<close>.
\<close>

fun segments_chain :: "NarrationSegment list \<Rightarrow> bool" where
  "segments_chain (a # b # rest) =
     (seg_startTime a \<le> seg_startTime b \<and> seg_endTime a = seg_startTime b
      \<and> segments_chain (b # rest))"
| "segments_chain [a] = True"
| "segments_chain [] = True"

definition section_invariant :: "SectionScript \<Rightarrow> bool" where
  "section_invariant script =
     (sec_segments script \<noteq> [] \<and>
      seg_startTime (hd (sec_segments script)) = 0 \<and>
      seg_endTime (last (sec_segments script)) = sec_totalDuration script \<and>
      segments_chain (sec_segments script))"

definition durations_nonneg :: "PresentationScript \<Rightarrow> bool" where
  "durations_nonneg p =
     (list_all (\<lambda>script. 0 \<le> sec_totalDuration script) (ps_sections p) \<and>
      list_all (\<lambda>transition. 0 \<le> tr_duration transition) (ps_transitions p))"

subsection \<open>Scripts used as concrete inputs\<close>

definition mkSegment :: "string \<Rightarrow> real \<Rightarrow> real \<Rightarrow> NarrationSegment" where
  "mkSegment name startTime endTime =
     \<lparr> seg_id = ''seg-'' @ name, seg_text = ''Text of '' @ name, seg_stepId = ''step-'' @ name,
       seg_estimatedDuration = endTime - startTime,
       seg_startTime = startTime, seg_endTime = endTime,
       seg_emphasis = None, seg_pacing = Normal \<rparr>"

text \<open>Two sections of 10 s and 8 s joined by one transition of 2 s.\<close>

definition scenarioA :: PresentationScript where
  "scenarioA =
     \<lparr> ps_paperTitle = ''A'',
       ps_sections =
         [\<lparr> sec_sectionId = ''s1'', sec_fullText = [],
            sec_segments = [mkSegment ''a'' 0 10], sec_totalDuration = 10 \<rparr>,
          \<lparr> sec_sectionId = ''s2'', sec_fullText = [],
            sec_segments = [mkSegment ''b'' 0 8], sec_totalDuration = 8 \<rparr>],
       ps_transitions =
         [\<lparr> tr_fromSectionId = ''s1'', tr_toSectionId = ''s2'',
            tr_type = Crossfade, tr_duration = 2 \<rparr>],
       ps_totalDuration = 20 \<rparr>"

text \<open>One section with three segments of 3 s each.\<close>

definition scenarioB :: PresentationScript where
  "scenarioB =
     \<lparr> ps_paperTitle = ''B'',
       ps_sections =
         [\<lparr> sec_sectionId = ''s1'', sec_fullText = [],
            sec_segments = [mkSegment ''a'' 0 3, mkSegment ''b'' 3 6, mkSegment ''c'' 6 9],
            sec_totalDuration = 9 \<rparr>],
       ps_transitions = [],
       ps_totalDuration = 9 \<rparr>"

text \<open>
  Two sections of 5 s joined by a transition of -4 s: the data-model invariant holds
  with \<open>totalDuration = 6\<close>.
\<close>

definition negativeTransitionScript :: PresentationScript where
  "negativeTransitionScript =
     \<lparr> ps_paperTitle = ''N'',
       ps_sections =
         [\<lparr> sec_sectionId = ''s1'', sec_fullText = [],
            sec_segments = [mkSegment ''a'' 0 5], sec_totalDuration = 5 \<rparr>,
          \<lparr> sec_sectionId = ''s2'', sec_fullText = [],
            sec_segments = [mkSegment ''b'' 0 5], sec_totalDuration = 5 \<rparr>],
       ps_transitions =
         [\<lparr> tr_fromSectionId = ''s1'', tr_toSectionId = ''s2'',
            tr_type = Crossfade, tr_duration = - 4 \<rparr>],
       ps_totalDuration = 6 \<rparr>"

text \<open>One section of 10 s whose list of segments is empty.\<close>

definition noSegmentsScript :: PresentationScript where
  "noSegmentsScript =
     \<lparr> ps_paperTitle = ''E'',
       ps_sections =
         [\<lparr> sec_sectionId = ''s1'', sec_fullText = [],
            sec_segments = [], sec_totalDuration = 10 \<rparr>],
       ps_transitions = [],
       ps_totalDuration = 10 \<rparr>"

text \<open>The script with no section: a timeline of zero duration.\<close>

definition emptyScript :: PresentationScript where
  "emptyScript =
     \<lparr> ps_paperTitle = [], ps_sections = [], ps_transitions = [], ps_totalDuration = 0 \<rparr>"

subsection \<open>Vocabulary for runs while playing\<close>

text \<open>
  The \<open>globalTime\<close> of each delivered state, in order of delivery, and what a run
  delivered beyond what had been delivered before it.
\<close>

definition globalTimes :: "'l notifications \<Rightarrow> real list" where
  "globalTimes ns = map (\<lambda>n. st_globalTime (snd n)) ns"

definition delivered_since :: "'l world \<Rightarrow> 'l world \<Rightarrow> 'l notifications" where
  "delivered_since w w' = drop (length (w_delivered w)) (w_delivered w')"

text \<open>
  The events that are not a seek: every event but a call of \<open>seek()\<close> or of
  \<open>seekToSection()\<close>, whose body calls \<open>seek()\<close>.
\<close>

fun seek_free :: "'l event \<Rightarrow> bool" where
  "seek_free (Seek t) = False"
| "seek_free (SeekToSection k) = False"
| "seek_free e = True"

text \<open>
  \<open>restarts c\<close>: a call of \<open>play()\<close> on \<open>c\<close> takes the branch that sets the time back to
  0, that is, the timeline is stopped at or past its end. \<open>no_restart evs w\<close>: no
  \<open>play()\<close> among the events \<open>evs\<close>, run from the world \<open>w\<close>, does so.
\<close>

definition restarts :: "'l TimelineController \<Rightarrow> bool" where
  "restarts c = (\<not> tc_playing c \<and> tc_currentTime c \<ge> tc_totalDuration c)"

fun no_restart :: "'l event list \<Rightarrow> 'l world \<Rightarrow> bool" where
  "no_restart [] w = True"
| "no_restart (e # evs) w =
     (\<not> (e = Play \<and> restarts (w_ctl w)) \<and> no_restart evs (dispatch e w))"

fun timestamps :: "'l event list \<Rightarrow> real list" where
  "timestamps [] = []"
| "timestamps (Frame ts # evs) = ts # timestamps evs"
| "timestamps (e # evs) = timestamps evs"

fun speeds :: "'l event list \<Rightarrow> real list" where
  "speeds [] = []"
| "speeds (SetSpeed s # evs) = s # speeds evs"
| "speeds (e # evs) = speeds evs"

text \<open>The \<open>globalTime\<close> that \<open>getStateAtTime\<close> reports at the controller's current time.\<close>

definition reportedTime :: "'l TimelineController \<Rightarrow> real" where
  "reportedTime c =
     (if tc_currentTime c \<ge> tc_totalDuration c then tc_totalDuration c
      else max 0 (tc_currentTime c))"

text \<open>
  Invariants of the runs, used in the proofs. The accumulated time is never negative
  unless it is pinned at the end of a timeline of negative duration; and a world stays
  playable towards the timestamps of the frames still to come when the speed is not
  negative, the time is admissible and the tick baseline, if any, is not later than any
  of them.
\<close>

definition time_admissible :: "'l TimelineController \<Rightarrow> bool" where
  "time_admissible c = (0 \<le> tc_currentTime c \<or> tc_totalDuration c \<le> tc_currentTime c)"

definition playable :: "'l world \<Rightarrow> real list \<Rightarrow> bool" where
  "playable w future =
     (0 \<le> tc_speed (w_ctl w) \<and> time_admissible (w_ctl w) \<and>
      (case tc_lastTimestamp (w_ctl w) of
         None \<Rightarrow> True
       | Some l \<Rightarrow> list_all (\<lambda>ts. l \<le> ts) future))"


section \<open>Keyframe interpolation engine (src/lib/keyframes.ts, lines 20-233)\<close>

text \<open>
  The engine calls two functions of the GSAP library, which is not part of the
  repository: \<open>gsap.parseEase\<close>, which turns what it is given into an easing function or
  into nothing, and \<open>gsap.utils.interpolate\<close>, which blends two colours or throws. Both
  are parameters of the model, \<open>parseEase\<close> and \<open>gsapInterpolate\<close>, where the result
  \<open>None\<close> of \<open>gsapInterpolate\<close> stands for the exception.
\<close>

datatype Scale = Uniform real | PerAxis real real real

record Keyframe =
  kf_time :: real
  kf_x :: "real option"
  kf_y :: "real option"
  kf_z :: "real option"
  kf_rotateX :: "real option"
  kf_rotateY :: "real option"
  kf_rotateZ :: "real option"
  kf_scale :: "Scale option"
  kf_opacity :: "real option"
  kf_color :: "string option"
  kf_easing :: "string option"

subsection \<open>Values that reach the engine where a number is declared\<close>

text \<open>
  \<open>easingAliases\<close> is an object literal, and \<open>easingAliases[easing]\<close> reads a property of
  it under a name that comes from the animation data. For a name that is not one of the
  eleven aliases the lookup goes on to \<open>Object.prototype\<close>, whose members every object
  literal inherits: it finds a built-in function for eleven further names, and the
  prototype object itself for \<open>__proto__\<close>. Such a value is truthy, so
  \<open>easingAliases[easing] || easing\<close> keeps it, and it is passed to \<open>gsap.parseEase\<close> in
  the place of a curve name. An \<open>easeArg\<close>, the argument of \<open>gsap.parseEase\<close>, is
  either a string or the member of \<open>Object.prototype\<close> of the given name.
\<close>

datatype easeArg = EaseName string | Inherited string

definition objectPrototypeMembers :: "string list" where
  "objectPrototypeMembers =
     [''constructor'', ''__defineGetter__'', ''__defineSetter__'', ''hasOwnProperty'',
      ''__lookupGetter__'', ''__lookupSetter__'', ''isPrototypeOf'', ''propertyIsEnumerable'',
      ''toString'', ''valueOf'', ''__proto__'', ''toLocaleString'']"

text \<open>
  What \<open>gsap.parseEase\<close> hands back is called as \<open>easeFn(clamped)\<close>: a curve of the
  library, or a member of \<open>Object.prototype\<close> that the library returned as it was given.
  The call passes no receiver, so the member runs with \<open>this\<close> undefined.
  \<open>Object.prototype.toString\<close> then returns the string \<open>[object Undefined]\<close>,
  \<open>isPrototypeOf\<close> returns \<open>false\<close> for an argument that is a number, the constructor
  \<open>Object\<close> wraps the number in a \<open>Number\<close> object, and every other member throws a
  \<open>TypeError\<close>, either when it converts the undefined receiver to an object or, for the
  prototype object, because it is not a function. So the value of \<open>easeProgress\<close>,
  declared a number, can be one of four things.
\<close>

datatype easeFn = Curve "real \<Rightarrow> real" | Builtin string

datatype easeValue = Num real | Boxed real | Boolean bool | UndefinedTag

definition callBuiltin :: "string \<Rightarrow> real \<Rightarrow> error + easeValue" where
  "callBuiltin key arg =
     (if key = ''toString'' then Inr UndefinedTag
      else if key = ''isPrototypeOf'' then Inr (Boolean False)
      else if key = ''constructor'' then Inr (Boxed arg)
      else Inl TypeError)"

text \<open>
  A number of the interpolated state: a real, or \<open>NaN\<close> when the arithmetic was given the
  string above. \<open>toNumber\<close> is the conversion that \<open>*\<close> and \<open><\<close> apply to an operand.
\<close>

datatype jsnum = Finite real | NaN

definition toNumber :: "easeValue \<Rightarrow> jsnum" where
  "toNumber v =
     (case v of
        Num r \<Rightarrow> Finite r
      | Boxed r \<Rightarrow> Finite r
      | Boolean b \<Rightarrow> Finite (if b then 1 else 0)
      | UndefinedTag \<Rightarrow> NaN)"

subsection \<open>Easing\<close>

definition ownAliases :: "(string \<times> string) list" where
  "ownAliases =
     [(''linear'', ''none''),
      (''easeIn'', ''power1.in''),
      (''easeOut'', ''power1.out''),
      (''easeInOut'', ''power2.inOut''),
      (''backOut'', ''back.out(1.7)''),
      (''cubicOut'', ''power3.out''),
      (''cubicInOut'', ''power3.inOut''),
      (''bounceOut'', ''bounce.out''),
      (''elasticOut'', ''elastic.out(1, 0.3)''),
      (''quadOut'', ''power1.out''),
      (''spring'', ''back.out(2.5)'')]"

text \<open>
  \<open>easingAliases[easing]\<close>: an own property of the literal, else an inherited member,
  else \<open>undefined\<close>.
\<close>

definition easingAliases :: "string \<Rightarrow> easeArg option" where
  "easingAliases easing =
     (case map_of ownAliases easing of
        Some name \<Rightarrow> Some (EaseName name)
      | None \<Rightarrow> if easing \<in> set objectPrototypeMembers then Some (Inherited easing) else None)"

text \<open>
  \<open>easingAliases[easing] || easing\<close>: the value found when it is truthy (a non-empty
  string, a function or an object), else the name itself.
\<close>

definition gsapName :: "string \<Rightarrow> easeArg" where
  "gsapName easing =
     (case easingAliases easing of
        Some (EaseName name) \<Rightarrow> if name = [] then EaseName easing else EaseName name
      | Some (Inherited key) \<Rightarrow> Inherited key
      | None \<Rightarrow> EaseName easing)"

definition easeProgress ::
  "(easeArg \<Rightarrow> easeFn option) \<Rightarrow> real \<Rightarrow> string \<Rightarrow> error + easeValue" where
  "easeProgress parseEase progress easing =
     (let clamped = max 0 (min 1 progress)
      in case parseEase (gsapName easing) of
           Some (Curve curve) \<Rightarrow> Inr (Num (curve clamped))
         | Some (Builtin key) \<Rightarrow> callBuiltin key clamped
         | None \<Rightarrow> Inr (Num clamped))"

subsection \<open>Interpolation\<close>

record InterpolatedState =
  is_x :: jsnum
  is_y :: jsnum
  is_z :: jsnum
  is_rotateX :: jsnum
  is_rotateY :: jsnum
  is_rotateZ :: jsnum
  is_scaleX :: jsnum
  is_scaleY :: jsnum
  is_scaleZ :: jsnum
  is_opacity :: jsnum
  is_color :: "string option"

text \<open>
  \<open>lerpColor\<close> and \<open>lerp\<close> are handed the value of \<open>easeProgress\<close> as \<open>t\<close>. A comparison
  with \<open>NaN\<close> is false.
\<close>

definition lerpColor ::
  "(string \<Rightarrow> string \<Rightarrow> easeValue \<Rightarrow> string option) \<Rightarrow> string \<Rightarrow> string \<Rightarrow> easeValue \<Rightarrow> string" where
  "lerpColor gsapInterpolate c1 c2 t =
     (case gsapInterpolate c1 c2 t of
        Some c \<Rightarrow> c
      | None \<Rightarrow> (case toNumber t of
                   Finite r \<Rightarrow> if r < 0.5 then c1 else c2
                 | NaN \<Rightarrow> c2))"

definition lerp :: "real \<Rightarrow> real \<Rightarrow> easeValue \<Rightarrow> jsnum" where
  "lerp a b t =
     (case toNumber t of
        Finite r \<Rightarrow> Finite (a + (b - a) * r)
      | NaN \<Rightarrow> NaN)"

definition normalizeScale :: "Scale option \<Rightarrow> real \<times> real \<times> real" where
  "normalizeScale s =
     (case s of
        None \<Rightarrow> (1, 1, 1)
      | Some (Uniform v) \<Rightarrow> (v, v, v)
      | Some (PerAxis sx sy sz) \<Rightarrow> (sx, sy, sz))"

text \<open>\<open>v ?? d\<close> on an optional number.\<close>

definition orElse :: "real option \<Rightarrow> real \<Rightarrow> real" where
  "orElse v d = (case v of Some a \<Rightarrow> a | None \<Rightarrow> d)"

text \<open>
  The object that \<open>interpolateKeyframes\<close> returns for a single keyframe, before the first
  keyframe and after the last one; the source writes the same literal three times.
\<close>

definition keyframeState :: "Keyframe \<Rightarrow> InterpolatedState" where
  "keyframeState kf =
     (case normalizeScale (kf_scale kf) of
        (sx, sy, sz) \<Rightarrow>
          \<lparr> is_x = Finite (orElse (kf_x kf) 0),
            is_y = Finite (orElse (kf_y kf) 0),
            is_z = Finite (orElse (kf_z kf) 0),
            is_rotateX = Finite (orElse (kf_rotateX kf) 0),
            is_rotateY = Finite (orElse (kf_rotateY kf) 0),
            is_rotateZ = Finite (orElse (kf_rotateZ kf) 0),
            is_scaleX = Finite sx, is_scaleY = Finite sy, is_scaleZ = Finite sz,
            is_opacity = Finite (orElse (kf_opacity kf) 1),
            is_color = kf_color kf \<rparr>)"

definition neutralState :: InterpolatedState where
  "neutralState =
     \<lparr> is_x = Finite 0, is_y = Finite 0, is_z = Finite 0,
       is_rotateX = Finite 0, is_rotateY = Finite 0, is_rotateZ = Finite 0,
       is_scaleX = Finite 1, is_scaleY = Finite 1, is_scaleZ = Finite 1,
       is_opacity = Finite 1, is_color = None \<rparr>"

text \<open>The loop that finds the keyframe to interpolate from, over the indices still to try.\<close>

fun findFromIdx :: "Keyframe list \<Rightarrow> real \<Rightarrow> nat list \<Rightarrow> nat" where
  "findFromIdx keyframes p [] = 0"
| "findFromIdx keyframes p (i # is) =
     (if p \<ge> kf_time (keyframes ! i) \<and> p < kf_time (keyframes ! (i + 1)) then i
      else findFromIdx keyframes p is)"

text \<open>
  A string is truthy in JavaScript when it is defined and not empty; \<open>s || d\<close> is \<open>s\<close>
  when \<open>s\<close> is truthy and \<open>d\<close> otherwise.
\<close>

definition truthy :: "string option \<Rightarrow> bool" where
  "truthy s = (case s of Some c \<Rightarrow> c \<noteq> [] | None \<Rightarrow> False)"

definition strOr :: "string option \<Rightarrow> string \<Rightarrow> string" where
  "strOr s d = (case s of Some c \<Rightarrow> if c = [] then d else c | None \<Rightarrow> d)"

text \<open>
  The last part of \<open>interpolateKeyframes\<close>, between the keyframes \<open>from\<close> and \<open>to\<close>. An
  exception thrown by \<open>easeProgress\<close> is not caught.
\<close>

definition interpolateBetween ::
  "(easeArg \<Rightarrow> easeFn option) \<Rightarrow> (string \<Rightarrow> string \<Rightarrow> easeValue \<Rightarrow> string option) \<Rightarrow>
     Keyframe \<Rightarrow> Keyframe \<Rightarrow> real \<Rightarrow> error + InterpolatedState" where
  "interpolateBetween parseEase gsapInterpolate from to p =
     (let segmentLength = kf_time to - kf_time from;
          localProgress = (if segmentLength > 0 then (p - kf_time from) / segmentLength else 0)
      in case easeProgress parseEase localProgress (strOr (kf_easing from) ''easeInOut'') of
           Inl e \<Rightarrow> Inl e
         | Inr eased \<Rightarrow>
            (case (normalizeScale (kf_scale from), normalizeScale (kf_scale to)) of
               ((fx, fy, fz), (tx, ty, tz)) \<Rightarrow>
                 Inr \<lparr> is_x = lerp (orElse (kf_x from) 0)
                                (orElse (kf_x to) (orElse (kf_x from) 0)) eased,
                       is_y = lerp (orElse (kf_y from) 0)
                                (orElse (kf_y to) (orElse (kf_y from) 0)) eased,
                       is_z = lerp (orElse (kf_z from) 0)
                                (orElse (kf_z to) (orElse (kf_z from) 0)) eased,
                       is_rotateX = lerp (orElse (kf_rotateX from) 0)
                                      (orElse (kf_rotateX to) (orElse (kf_rotateX from) 0)) eased,
                       is_rotateY = lerp (orElse (kf_rotateY from) 0)
                                      (orElse (kf_rotateY to) (orElse (kf_rotateY from) 0)) eased,
                       is_rotateZ = lerp (orElse (kf_rotateZ from) 0)
                                      (orElse (kf_rotateZ to) (orElse (kf_rotateZ from) 0)) eased,
                       is_scaleX = lerp fx tx eased,
                       is_scaleY = lerp fy ty eased,
                       is_scaleZ = lerp fz tz eased,
                       is_opacity = lerp (orElse (kf_opacity from) 1)
                                      (orElse (kf_opacity to) (orElse (kf_opacity from) 1)) eased,
                       is_color =
                         (if truthy (kf_color from) \<and> truthy (kf_color to)
                          then Some (lerpColor gsapInterpolate
                                       (strOr (kf_color from) []) (strOr (kf_color to) []) eased)
                          else if truthy (kf_color to) then kf_color to
                          else kf_color from) \<rparr>))"

definition interpolateKeyframes ::
  "(easeArg \<Rightarrow> easeFn option) \<Rightarrow> (string \<Rightarrow> string \<Rightarrow> easeValue \<Rightarrow> string option) \<Rightarrow>
     Keyframe list \<Rightarrow> real \<Rightarrow> error + InterpolatedState" where
  "interpolateKeyframes parseEase gsapInterpolate keyframes progress =
     (if keyframes = [] then Inr neutralState
      else let p = max 0 (min 1 progress)
           in if length keyframes = 1 then Inr (keyframeState (keyframes ! 0))
              else if p \<le> kf_time (keyframes ! 0) then Inr (keyframeState (keyframes ! 0))
              else if p \<ge> kf_time (keyframes ! (length keyframes - 1))
                   then Inr (keyframeState (keyframes ! (length keyframes - 1)))
              else let fromIdx = findFromIdx keyframes p [0 ..< length keyframes - 1]
                   in interpolateBetween parseEase gsapInterpolate
                        (keyframes ! fromIdx) (keyframes ! (fromIdx + 1)) p)"

subsection \<open>A stand-in for the easing library\<close>

text \<open>
  A small library for concrete inputs. It knows the identity and the quadratic ease-in
  and ease-out by their GSAP names and no other name; given a function in the place of a
  name it returns that function, as \<open>gsap.parseEase\<close> does, and given the prototype
  object it returns nothing.
\<close>

definition sampleParseEase :: "easeArg \<Rightarrow> easeFn option" where
  "sampleParseEase arg =
     (case arg of
        EaseName name \<Rightarrow>
          if name = ''none'' then Some (Curve (\<lambda>p. p))
          else if name = ''power1.in'' then Some (Curve (\<lambda>p. p * p))
          else if name = ''power1.out'' then Some (Curve (\<lambda>p. 1 - (1 - p) * (1 - p)))
          else None
      | Inherited key \<Rightarrow> if key = ''__proto__'' then None else Some (Builtin key))"

definition noInterpolate :: "string \<Rightarrow> string \<Rightarrow> easeValue \<Rightarrow> string option" where
  "noInterpolate c1 c2 t = None"

definition emptyKeyframe :: Keyframe where
  "emptyKeyframe =
     \<lparr> kf_time = 0, kf_x = None, kf_y = None, kf_z = None,
       kf_rotateX = None, kf_rotateY = None, kf_rotateZ = None,
       kf_scale = None, kf_opacity = None, kf_color = None, kf_easing = None \<rparr>"

text \<open>Two keyframes at the same time 0.5, with \<open>x = 0\<close> and \<open>x = 100\<close>.\<close>

definition tiedKeyframes :: "Keyframe list" where
  "tiedKeyframes =
     [emptyKeyframe \<lparr> kf_time := 0.5, kf_x := Some 0 \<rparr>,
      emptyKeyframe \<lparr> kf_time := 0.5, kf_x := Some 100 \<rparr>]"

text \<open>Scenario D of the specification: \<open>x\<close> from 0 to 100 and opacity from 0 to 1.\<close>

definition scenarioD :: "Keyframe list" where
  "scenarioD =
     [emptyKeyframe \<lparr> kf_time := 0, kf_x := Some 0, kf_opacity := Some 0 \<rparr>,
      emptyKeyframe \<lparr> kf_time := 1, kf_x := Some 100, kf_opacity := Some 1 \<rparr>]"

section \<open>Script repair (analyzePaper and its helpers, src/unnamed/part_002, lines 359-568)\<close>

subsection \<open>JavaScript strings\<close>

text \<open>
  A string is a list of characters, read as ASCII text: the white space of \<open>\s\<close> and of
  \<open>trim\<close> is tab, the line terminators and the blank, and \<open>toUpperCase\<close> and
  \<open>toLowerCase\<close> act on the 26 letters. Characters outside ASCII are letters without
  case in the model.
\<close>

definition is_space :: "char \<Rightarrow> bool" where
  "is_space c = (c \<in> set [CHR 0x09, CHR 0x0A, CHR 0x0B, CHR 0x0C, CHR 0x0D, CHR 0x20])"

definition lowerLetters :: string where
  "lowerLetters = ''abcdefghijklmnopqrstuvwxyz''"

definition upperLetters :: string where
  "upperLetters = ''ABCDEFGHIJKLMNOPQRSTUVWXYZ''"

definition toUpperChar :: "char \<Rightarrow> char" where
  "toUpperChar c = (case map_of (zip lowerLetters upperLetters) c of Some u \<Rightarrow> u | None \<Rightarrow> c)"

definition toLowerChar :: "char \<Rightarrow> char" where
  "toLowerChar c = (case map_of (zip upperLetters lowerLetters) c of Some l \<Rightarrow> l | None \<Rightarrow> c)"

definition toLowerCase :: "string \<Rightarrow> string" where
  "toLowerCase s = map toLowerChar s"

text \<open>\<open>s.trim()\<close>.\<close>

definition trim :: "string \<Rightarrow> string" where
  "trim s = rev (dropWhile is_space (rev (dropWhile is_space s)))"

text \<open>
  \<open>s.replace(/\s+/g, ' ')\<close>: every maximal run of white space becomes one blank. The
  flag says whether the character before was white space.
\<close>

fun collapseSpaces_from :: "bool \<Rightarrow> string \<Rightarrow> string" where
  "collapseSpaces_from inRun [] = []"
| "collapseSpaces_from inRun (c # cs) =
     (if is_space c
      then (if inRun then collapseSpaces_from True cs
            else CHR '' '' # collapseSpaces_from True cs)
      else c # collapseSpaces_from False cs)"

definition collapseSpaces :: "string \<Rightarrow> string" where
  "collapseSpaces s = collapseSpaces_from False s"

text \<open>
  \<open>s.split(/\s+/)\<close>: the pieces between the maximal runs of white space, the empty
  pieces at either end included. \<open>cur\<close> is the piece being read.
\<close>

fun splitSpaces_from :: "bool \<Rightarrow> string \<Rightarrow> string \<Rightarrow> string list" where
  "splitSpaces_from inRun cur [] = [cur]"
| "splitSpaces_from inRun cur (c # cs) =
     (if is_space c
      then (if inRun then splitSpaces_from True cur cs
            else cur # splitSpaces_from True [] cs)
      else splitSpaces_from False (cur @ [c]) cs)"

definition splitSpaces :: "string \<Rightarrow> string list" where
  "splitSpaces s = splitSpaces_from False [] s"

text \<open>
  \<open>s.split(/(?<=[.!?])\s+/)\<close>: a separator is a maximal run of white space that
  directly follows one of \<open>.\<close>, \<open>!\<close>, \<open>?\<close>. \<open>afterPunct\<close> says whether the character
  before is one of the three, \<open>inSep\<close> whether a separator is being skipped.
\<close>

definition is_terminal :: "char \<Rightarrow> bool" where
  "is_terminal c = (c \<in> set ''.!?'')"

fun splitSentences_from :: "bool \<Rightarrow> bool \<Rightarrow> string \<Rightarrow> string \<Rightarrow> string list" where
  "splitSentences_from afterPunct inSep cur [] = [cur]"
| "splitSentences_from afterPunct inSep cur (c # cs) =
     (if is_space c \<and> inSep then splitSentences_from False True cur cs
      else if is_space c \<and> afterPunct then cur # splitSentences_from False True [] cs
      else splitSentences_from (is_terminal c) False (cur @ [c]) cs)"

text \<open>The decimal numeral of a count, as a template literal prints it.\<close>

definition digitChar :: "nat \<Rightarrow> char" where
  "digitChar d = ''0123456789'' ! d"

fun showNat :: "nat \<Rightarrow> string" where
  "showNat n = (if n < 10 then [digitChar n] else showNat (n div 10) @ [digitChar (n mod 10)])"

declare showNat.simps [simp del]

text \<open>\<open>xs.join(' ')\<close>.\<close>

fun joinSpace :: "string list \<Rightarrow> string" where
  "joinSpace [] = []"
| "joinSpace [x] = x"
| "joinSpace (x # y # ys) = x @ '' '' @ joinSpace (y # ys)"

text \<open>
  \<open>Array.from(new Set(xs))\<close>: the distinct elements in the order of their first
  occurrence.
\<close>

definition distinctInOrder :: "'a list \<Rightarrow> 'a list" where
  "distinctInOrder xs = rev (remdups (rev xs))"

subsection \<open>Animation steps\<close>

text \<open>
  What the repair reads of an \<open>AnimationStep\<close> and of its elements. The values of an
  element's \<open>props\<close> are arbitrary JSON; the repair asks only whether \<open>content\<close> or
  \<open>label\<close> is a string. A field missing from the parsed JSON behaves in every use below
  as the empty string, the number 0 or the empty array, which is how it is modelled.
\<close>

datatype jsval = JUndefined | JNull | JString string | JOther

record AnimationElement =
  el_type :: string
  el_props :: "string \<Rightarrow> jsval"

record AnimationStep =
  step_id :: string
  step_description :: string
  step_duration :: real
  step_elements :: "AnimationElement list"

record AnimationData =
  ad_steps :: "AnimationStep list"

text \<open>\<open>a ?? b\<close>.\<close>

definition nullish :: "jsval \<Rightarrow> jsval \<Rightarrow> jsval" where
  "nullish a b = (if a = JUndefined \<or> a = JNull then b else a)"

subsection \<open>Sentences and narration\<close>

definition normalizeSpaces :: "string \<Rightarrow> string" where
  "normalizeSpaces s = trim (collapseSpaces s)"

definition splitIntoSentences :: "string \<Rightarrow> string list" where
  "splitIntoSentences text =
     (if text = [] then []
      else filter (\<lambda>sentence. sentence \<noteq> [])
             (map normalizeSpaces (splitSentences_from False False [] text)))"

definition ensureSentence :: "string \<Rightarrow> string" where
  "ensureSentence text =
     (let trimmed = normalizeSpaces text
      in case trimmed of
           [] \<Rightarrow> []
         | c # rest \<Rightarrow>
             let capitalized = toUpperChar c # rest
             in if is_terminal (last capitalized) then capitalized
                else capitalized @ ''.'')"

definition focusTypes :: "string list" where
  "focusTypes = [''highlight'', ''shape'', ''node'', ''text'']"

text \<open>The body of the loop of \<open>extractStepHighlights\<close>: what one element adds.\<close>

definition highlightPhrase :: "AnimationElement \<Rightarrow> string list" where
  "highlightPhrase element =
     (if el_type element \<notin> set focusTypes then []
      else case nullish (el_props element ''content'') (el_props element ''label'') of
             JString rawContent \<Rightarrow>
               (let cleaned = normalizeSpaces rawContent
                in if length cleaned > 0 then [cleaned] else [])
           | _ \<Rightarrow> [])"

definition extractStepHighlights :: "AnimationStep \<Rightarrow> string list" where
  "extractStepHighlights step =
     take 3 (distinctInOrder (concat (map highlightPhrase (step_elements step))))"

definition buildSegmentNarration ::
  "AnimationStep \<Rightarrow> string option \<Rightarrow> string \<Rightarrow> string \<Rightarrow> nat \<Rightarrow> string" where
  "buildSegmentNarration step fallbackSentence sectionConcept sectionTitle stepIndex =
     (if fallbackSentence \<noteq> None \<and> length (the fallbackSentence) > 0
      then ensureSentence (the fallbackSentence)
      else
        let highlights = extractStepHighlights step;
            focusSubject = (if sectionConcept \<noteq> [] then sectionConcept
                            else if sectionTitle \<noteq> [] then sectionTitle
                            else ''this concept'')
        in if length highlights > 0
           then let joined = (if length highlights = 1 then highlights ! 0
                              else highlights ! 0 @ '' and '' @ highlights ! 1)
                in ensureSentence
                     (''We spotlight '' @ joined @ '' to show how it connects to ''
                      @ focusSubject @ ''.'')
           else if length (trim (step_description step)) > 0
           then ensureSentence (step_description step)
           else ensureSentence
                  (''Step '' @ showNat (stepIndex + 1) @ '' deepens the understanding of ''
                   @ focusSubject @ ''.''))"

subsection \<open>Emphasis\<close>

definition wordChars :: string where
  "wordChars = lowerLetters @ upperLetters @ ''0123456789-''"

text \<open>\<open>word.replace(/[^a-zA-Z0-9-]/g, '')\<close>.\<close>

definition stripWord :: "string \<Rightarrow> string" where
  "stripWord word = filter (\<lambda>c. c \<in> set wordChars) word"

text \<open>
  The two loops of \<open>buildEmphasis\<close> share their body: push the word unless it is empty
  or already there up to case, and stop as soon as two words are held.
\<close>

fun pushEmphasis :: "string list \<Rightarrow> string list \<Rightarrow> string list" where
  "pushEmphasis emphasis [] = emphasis"
| "pushEmphasis emphasis (word # ws) =
     (let normalized = toLowerCase word;
          emphasis1 = (if normalized \<noteq> [] \<and> \<not> list_ex (\<lambda>w. toLowerCase w = normalized) emphasis
                       then emphasis @ [word] else emphasis)
      in if length emphasis1 \<ge> 2 then emphasis1 else pushEmphasis emphasis1 ws)"

definition buildEmphasis :: "AnimationStep \<Rightarrow> string \<Rightarrow> string list" where
  "buildEmphasis step segmentText =
     (let highlightWords =
            concat (map (\<lambda>phrase. filter (\<lambda>word. length word > 3)
                                    (map stripWord (splitSpaces phrase)))
                        (extractStepHighlights step));
          emphasis = pushEmphasis [] highlightWords
      in if length emphasis \<ge> 2 then take 2 emphasis
         else let fallbackWords = filter (\<lambda>word. length word > 4)
                                    (map stripWord (splitSpaces segmentText))
              in take 2 (pushEmphasis emphasis fallbackWords))"

subsection \<open>alignSegmentsToSteps\<close>

text \<open>
  \<open>Number(x.toFixed(2))\<close>: \<open>x\<close> rounded to two decimals, halves upwards.
\<close>

definition toFixed2 :: "real \<Rightarrow> real" where
  "toFixed2 x = of_int \<lfloor>x * 100 + 1 / 2\<rfloor> / 100"

definition wordCount :: "string \<Rightarrow> nat" where
  "wordCount text = length (filter (\<lambda>word. word \<noteq> []) (splitSpaces text))"

text \<open>\<open>sentences[index]\<close>, which is \<open>undefined\<close> past the end.\<close>

definition nthOpt :: "'a list \<Rightarrow> nat \<Rightarrow> 'a option" where
  "nthOpt xs i = (if i < length xs then Some (xs ! i) else None)"

definition alignedSegment ::
  "string list \<Rightarrow> string \<Rightarrow> string \<Rightarrow> string \<Rightarrow> nat \<Rightarrow> AnimationStep \<Rightarrow> NarrationSegment" where
  "alignedSegment sentences sectionId sectionTitle sectionConcept index step =
     (let fallbackSentence = nthOpt sentences index;
          text = buildSegmentNarration step fallbackSentence sectionConcept sectionTitle index;
          estimatedFromWords = max 2.5 (real (wordCount text) / 150 * 60);
          emphasis = buildEmphasis step text
      in \<lparr> seg_id = ''seg-'' @ sectionId @ ''-'' @ showNat (index + 1),
           seg_text = text,
           seg_stepId = (if step_id step \<noteq> [] then step_id step
                         else sectionId @ ''-step-'' @ showNat (index + 1)),
           seg_estimatedDuration = (if step_duration step \<noteq> 0 then step_duration step
                                    else toFixed2 estimatedFromWords),
           seg_startTime = 0,
           seg_endTime = 0,
           seg_emphasis = (if length emphasis > 0 then Some emphasis else None),
           seg_pacing = Normal \<rparr>)"

definition alignSegmentsToSteps ::
  "SectionScript \<Rightarrow> AnimationData \<Rightarrow> string \<Rightarrow> string \<Rightarrow> string \<Rightarrow> string \<Rightarrow> SectionScript" where
  "alignSegmentsToSteps script animationData narration sectionId sectionTitle sectionConcept =
     (let steps = ad_steps animationData
      in if steps = []
         then \<lparr> sec_sectionId = sectionId, sec_fullText = narration,
                sec_segments = sec_segments script, sec_totalDuration = 0 \<rparr>
         else
           let sentences = splitIntoSentences narration;
               segments = map (\<lambda>(index, step).
                                 alignedSegment sentences sectionId sectionTitle sectionConcept
                                   index step)
                              (enumerate 0 steps);
               fullText = joinSpace (map seg_text segments)
           in \<lparr> sec_sectionId = sectionId, sec_fullText = fullText,
                sec_segments = segments, sec_totalDuration = 0 \<rparr>)"

subsection \<open>The repair step of analyzePaper\<close>

text \<open>
  For each section that has a script and animation data, \<open>analyzePaper\<close> tests whether
  the script must be regenerated, and either calls \<open>alignSegmentsToSteps\<close> or re-syncs
  the segments it keeps with their steps. \<open>(seg.text || '')\<close> is the text itself in the
  model, where a missing text is the empty string.
\<close>

definition shouldRegenerate :: "SectionScript \<Rightarrow> AnimationData \<Rightarrow> bool" where
  "shouldRegenerate script animationData =
     (let segCount = length (sec_segments script);
          stepCount = length (ad_steps animationData);
          uniqueTexts = set (filter (\<lambda>t. t \<noteq> [])
                               (map (\<lambda>seg. toLowerCase (trim (seg_text seg))) (sec_segments script)))
      in segCount \<noteq> stepCount \<or> segCount = 0 \<or> card uniqueTexts \<le> 1)"

definition resyncedSegment :: "AnimationStep \<Rightarrow> NarrationSegment \<Rightarrow> NarrationSegment" where
  "resyncedSegment step segment =
     (let textWordCount = wordCount (seg_text segment);
          estimatedFromText = (if textWordCount > 0
                               then max 2.5 (real textWordCount / 150 * 60) else 4)
      in segment \<lparr> seg_stepId := step_id step,
                   seg_estimatedDuration :=
                     (if step_duration step \<noteq> 0 then step_duration step
                      else if seg_estimatedDuration segment \<noteq> 0 then seg_estimatedDuration segment
                      else estimatedFromText) \<rparr>)"

definition repairScript ::
  "SectionScript \<Rightarrow> AnimationData \<Rightarrow> string \<Rightarrow> string \<Rightarrow> string \<Rightarrow> string \<Rightarrow> SectionScript" where
  "repairScript script animationData narration sectionId sectionTitle sectionConcept =
     (if shouldRegenerate script animationData
      then alignSegmentsToSteps script animationData narration sectionId sectionTitle
             sectionConcept
      else
        let segments = map (\<lambda>(segmentIndex, segment).
                              resyncedSegment (ad_steps animationData ! segmentIndex) segment)
                           (enumerate 0 (sec_segments script))
        in script \<lparr> sec_segments := segments,
                    sec_fullText := joinSpace (map seg_text segments),
                    sec_totalDuration := 0 \<rparr>)"

subsection \<open>Concrete inputs of the repair\<close>

definition noProps :: "string \<Rightarrow> jsval" where
  "noProps key = JUndefined"

text \<open>
  Scenario C of the specification: three steps and the narration \<open>Intro\<close>. The first step
  has no element and no description, the second highlights two labels, the third has a
  description only.
\<close>

definition scenarioC_steps :: AnimationData where
  "scenarioC_steps =
     \<lparr> ad_steps =
         [\<lparr> step_id = ''step-1'', step_description = [], step_duration = 4, step_elements = [] \<rparr>,
          \<lparr> step_id = [], step_description = ''shows the encoder'', step_duration = 0,
            step_elements =
              [\<lparr> el_type = ''node'', el_props = noProps(''label'' := JString ''Encoder  block'') \<rparr>,
               \<lparr> el_type = ''arrow'', el_props = noProps(''label'' := JString ''ignored'') \<rparr>,
               \<lparr> el_type = ''text'', el_props = noProps(''content'' := JString ''Decoder'') \<rparr>] \<rparr>,
          \<lparr> step_id = ''step-3'', step_description = ''the output is  produced'',
            step_duration = 0, step_elements = [] \<rparr>] \<rparr>"

definition rawScript :: SectionScript where
  "rawScript =
     \<lparr> sec_sectionId = ''raw'', sec_fullText = ''Old text.'',
       sec_segments = [mkSegment ''a'' 0 0], sec_totalDuration = 12 \<rparr>"

text \<open>A string with at least one character that is not white space.\<close>

definition has_nonspace :: "string \<Rightarrow> bool" where
  "has_nonspace s = list_ex (\<lambda>c. \<not> is_space c) s"

section \<open>Properties of the timeline\<close>

subsection \<open>Start offsets computed at construction\<close>

lemma computeStartTimes_fold:
  "fold (computeStartTimes_step secs trs) [0 ..< k] (0, [], []) =
     (sectionsBefore secs k + transitionsBefore trs (min k (length trs)),
      map (\<lambda>i. sectionsBefore secs i + transitionsBefore trs (min i (length trs))) [0 ..< k],
      map (\<lambda>i. sectionsBefore secs (Suc i) + transitionsBefore trs i) [0 ..< min k (length trs)])"
proof (induction k)
  case 0
  show ?case by (simp add: sectionsBefore_def transitionsBefore_def)
next
  case (Suc k)
  let ?f = "computeStartTimes_step secs trs"
  have unroll: "fold ?f [0 ..< Suc k] (0, [], []) = ?f k (fold ?f [0 ..< k] (0, [], []))"
    by simp
  show ?case
  proof (cases "k < length trs")
    case True
    then have m: "min k (length trs) = k" "min (Suc k) (length trs) = Suc k" by simp_all
    show ?thesis
      unfolding unroll Suc.IH using True
      by (simp add: computeStartTimes_step_def m sectionsBefore_def transitionsBefore_def Let_def)
  next
    case False
    then have m: "min k (length trs) = length trs" "min (Suc k) (length trs) = length trs" by simp_all
    show ?thesis
      unfolding unroll Suc.IH using False
      by (simp add: computeStartTimes_step_def m sectionsBefore_def transitionsBefore_def Let_def)
  qed
qed

lemma new_fields:
  "tc_sectionScripts (TimelineController_new p) = ps_sections p"
  "tc_transitions (TimelineController_new p) = ps_transitions p"
  "tc_totalDuration (TimelineController_new p) = ps_totalDuration p"
  "tc_sectionStartTimes (TimelineController_new p) =
     map (\<lambda>i. sectionsBefore (ps_sections p) i
               + transitionsBefore (ps_transitions p) (min i (length (ps_transitions p))))
         [0 ..< length (ps_sections p)]"
  "tc_transitionStartTimes (TimelineController_new p) =
     map (\<lambda>i. sectionsBefore (ps_sections p) (Suc i) + transitionsBefore (ps_transitions p) i)
         [0 ..< min (length (ps_sections p)) (length (ps_transitions p))]"
  by (simp_all add: TimelineController_new_def computeStartTimes_def computeStartTimes_fold)

lemma tiles_append: "tiles a xs m \<Longrightarrow> tiles m ys b \<Longrightarrow> tiles a (xs @ ys) b"
  by (induction xs arbitrary: a) auto

lemma spansAt_new:
  assumes "i < length (ps_sections p)"
  shows "spansAt (TimelineController_new p) i =
     (let secs = ps_sections p; trs = ps_transitions p;
          a = sectionsBefore secs i + transitionsBefore trs (min i (length trs));
          b = sectionsBefore secs (Suc i) + transitionsBefore trs (min i (length trs))
      in if i < length trs
         then [(a, b), (b, sectionsBefore secs (Suc i) + transitionsBefore trs (Suc i))]
         else [(a, b)])"
  using assms
  by (simp add: spansAt_def sectionSpan_def transitionSpan_def new_fields Let_def
        sectionsBefore_def transitionsBefore_def)

lemma tiles_spans_prefix:
  fixes p :: PresentationScript
  defines "c \<equiv> (TimelineController_new p :: 'l TimelineController)"
  assumes "k \<le> length (ps_sections p)"
  shows "tiles 0 (concat (map (spansAt c) [0 ..< k]))
           (sectionsBefore (ps_sections p) k
            + transitionsBefore (ps_transitions p) (min k (length (ps_transitions p))))"
  using assms(2)
proof (induction k)
  case 0
  show ?case by (simp add: sectionsBefore_def transitionsBefore_def)
next
  case (Suc k)
  from Suc.prems have k: "k < length (ps_sections p)" by simp
  then have IH: "tiles 0 (concat (map (spansAt c) [0 ..< k]))
           (sectionsBefore (ps_sections p) k
            + transitionsBefore (ps_transitions p) (min k (length (ps_transitions p))))"
    using Suc.IH by simp
  have last: "tiles (sectionsBefore (ps_sections p) k
            + transitionsBefore (ps_transitions p) (min k (length (ps_transitions p))))
          (spansAt c k)
          (sectionsBefore (ps_sections p) (Suc k)
            + transitionsBefore (ps_transitions p) (min (Suc k) (length (ps_transitions p))))"
  proof (cases "k < length (ps_transitions p)")
    case True
    then have m: "min k (length (ps_transitions p)) = k"
        "min (Suc k) (length (ps_transitions p)) = Suc k" by simp_all
    show ?thesis using True by (simp add: c_def spansAt_new [OF k] m Let_def)
  next
    case False
    then have m: "min k (length (ps_transitions p)) = length (ps_transitions p)"
        "min (Suc k) (length (ps_transitions p)) = length (ps_transitions p)" by simp_all
    show ?thesis using False by (simp add: c_def spansAt_new [OF k] m Let_def)
  qed
  have "concat (map (spansAt c) [0 ..< Suc k]) = concat (map (spansAt c) [0 ..< k]) @ spansAt c k"
    by simp
  then show ?case using tiles_append [OF IH last] by simp
qed

lemma sectionsBefore_all: "sectionsBefore secs (length secs) = sum_list (map sec_totalDuration secs)"
  by (simp add: sectionsBefore_def sum_list_sum_nth atLeast0LessThan)

lemma transitionsBefore_all: "transitionsBefore trs (length trs) = sum_list (map tr_duration trs)"
  by (simp add: transitionsBefore_def sum_list_sum_nth atLeast0LessThan)

lemma tiles_lower:
  "tiles a xs b \<Longrightarrow> list_all (\<lambda>x. fst x \<le> snd x) xs \<Longrightarrow> j < length xs \<Longrightarrow> a \<le> fst (xs ! j)"
proof (induction xs arbitrary: a j)
  case Nil
  then show ?case by simp
next
  case (Cons x xs)
  show ?case
  proof (cases j)
    case 0
    then show ?thesis using Cons.prems by simp
  next
    case (Suc j')
    then have "snd x \<le> fst (xs ! j')" using Cons.IH [of "snd x" j'] Cons.prems by simp
    then show ?thesis using Cons.prems Suc by simp
  qed
qed

lemma tiles_cover:
  "tiles a xs b \<Longrightarrow> a \<le> t \<Longrightarrow> t < b \<Longrightarrow> \<exists>i<length xs. fst (xs ! i) \<le> t \<and> t < snd (xs ! i)"
proof (induction xs arbitrary: a)
  case Nil
  then show ?case by simp
next
  case (Cons x xs)
  show ?case
  proof (cases "t < snd x")
    case True
    then have "fst ((x # xs) ! 0) \<le> t \<and> t < snd ((x # xs) ! 0)" using Cons.prems by simp
    then show ?thesis by blast
  next
    case False
    then obtain i where "i < length xs" "fst (xs ! i) \<le> t \<and> t < snd (xs ! i)"
      using Cons.IH [of "snd x"] Cons.prems by auto
    then have "Suc i < length (x # xs) \<and> fst ((x # xs) ! Suc i) \<le> t \<and> t < snd ((x # xs) ! Suc i)"
      by simp
    then show ?thesis by blast
  qed
qed

lemma tiles_ordered:
  "tiles a xs b \<Longrightarrow> list_all (\<lambda>x. fst x \<le> snd x) xs \<Longrightarrow> i < j \<Longrightarrow> j < length xs \<Longrightarrow>
     snd (xs ! i) \<le> fst (xs ! j)"
proof (induction xs arbitrary: a i j)
  case Nil
  then show ?case by simp
next
  case (Cons x xs)
  from Cons.prems(3) obtain j' where j: "j = Suc j'" by (cases j) simp_all
  show ?case
  proof (cases i)
    case 0
    then show ?thesis
      using tiles_lower [of "snd x" xs b j'] Cons.prems j by simp
  next
    case (Suc i')
    then show ?thesis using Cons.IH [of "snd x" i' j'] Cons.prems j by simp
  qed
qed

lemma tiles_unique_span:
  assumes "tiles a xs b" and "list_all (\<lambda>x. fst x \<le> snd x) xs" and "a \<le> t" and "t < b"
  shows "\<exists>!i. i < length xs \<and> fst (xs ! i) \<le> t \<and> t < snd (xs ! i)"
proof -
  from tiles_cover [OF assms(1,3,4)] obtain i where
    i: "i < length xs \<and> fst (xs ! i) \<le> t \<and> t < snd (xs ! i)" by blast
  have "k = i" if k: "k < length xs \<and> fst (xs ! k) \<le> t \<and> t < snd (xs ! k)" for k
  proof (rule ccontr)
    assume "k \<noteq> i"
    then consider "k < i" | "i < k" by linarith
    then show False
    proof cases
      case 1
      then have "snd (xs ! k) \<le> fst (xs ! i)" using tiles_ordered [OF assms(1,2)] i by blast
      then show False using k i by simp
    next
      case 2
      then have "snd (xs ! i) \<le> fst (xs ! k)" using tiles_ordered [OF assms(1,2)] k by blast
      then show False using k i by simp
    qed
  qed
  with i show ?thesis by blast
qed

lemma spans_ordered_ends:
  assumes "durations_nonneg p"
  shows "list_all (\<lambda>x. fst x \<le> snd x) (spans (TimelineController_new p :: 'l TimelineController))"
proof -
  from assms have nn: "list_all (\<lambda>script. 0 \<le> sec_totalDuration script) (ps_sections p)"
      "list_all (\<lambda>transition. 0 \<le> tr_duration transition) (ps_transitions p)"
    by (simp_all add: durations_nonneg_def)
  have "list_all (\<lambda>x. fst x \<le> snd x) (spansAt (TimelineController_new p :: 'l TimelineController) i)"
    if "i < length (ps_sections p)" for i
  proof -
    have "0 \<le> sec_totalDuration (ps_sections p ! i)"
      using that nn(1) by (simp add: list_all_length)
    moreover have "0 \<le> tr_duration (ps_transitions p ! i)" if "i < length (ps_transitions p)"
      using that nn(2) by (simp add: list_all_length)
    ultimately show ?thesis
      by (simp add: spansAt_def sectionSpan_def transitionSpan_def new_fields(1,2))
  qed
  then show ?thesis
    by (auto simp: spans_def new_fields(1) list_all_iff)
qed

text \<open>
  Claim C4, as the code has it. For every \<open>PresentationScript\<close> that satisfies the
  data-model invariant (one transition fewer than sections, or none when there is no
  section; a total duration equal to the sum of all section and transition durations), the
  start offsets precomputed by the constructor chain the section and transition spans from
  0 to \<open>totalDuration\<close>: the first span starts at 0, every span starts where the one
  before it ends (transition \<open>i\<close> at the end of section \<open>i\<close>, section \<open>i + 1\<close> at the
  end of transition \<open>i\<close>), and the last span ends at \<open>totalDuration\<close>. Both offset
  arrays have one entry per section and per transition. When, in addition, no section or
  transition duration is negative, there is neither a gap nor an overlap: every time in
  \<open>[0, totalDuration)\<close> lies in exactly one span.
\<close>

theorem spans_tile_timeline:
  assumes "script_invariant p"
  shows "tiles 0 (spans (TimelineController_new p :: 'l TimelineController)) (ps_totalDuration p)
         \<and> length (tc_sectionStartTimes (TimelineController_new p :: 'l TimelineController))
             = length (ps_sections p)
         \<and> length (tc_transitionStartTimes (TimelineController_new p :: 'l TimelineController))
             = length (ps_transitions p)
         \<and> (durations_nonneg p \<longrightarrow>
              (\<forall>t. 0 \<le> t \<and> t < ps_totalDuration p \<longrightarrow>
                (\<exists>!i. i < length (spans (TimelineController_new p :: 'l TimelineController))
                      \<and> fst (spans (TimelineController_new p :: 'l TimelineController) ! i) \<le> t
                      \<and> t < snd (spans (TimelineController_new p :: 'l TimelineController) ! i))))"
proof -
  let ?c = "TimelineController_new p :: 'l TimelineController"
  from assms have len: "length (ps_transitions p) = length (ps_sections p) - 1"
    and tot: "ps_totalDuration p = sum_list (map sec_totalDuration (ps_sections p))
        + sum_list (map tr_duration (ps_transitions p))"
    by (simp_all add: script_invariant_def)
  have m: "min (length (ps_sections p)) (length (ps_transitions p)) = length (ps_transitions p)"
    using len by simp
  have tile: "tiles 0 (spans ?c) (ps_totalDuration p)"
    using tiles_spans_prefix [of "length (ps_sections p)" p] m
    by (simp add: spans_def new_fields(1) sectionsBefore_all transitionsBefore_all tot)
  have lens: "length (tc_sectionStartTimes ?c) = length (ps_sections p)"
      "length (tc_transitionStartTimes ?c) = length (ps_transitions p)"
    by (simp_all add: new_fields m)
  have "\<exists>!i. i < length (spans ?c) \<and> fst (spans ?c ! i) \<le> t \<and> t < snd (spans ?c ! i)"
    if "durations_nonneg p" "0 \<le> t \<and> t < ps_totalDuration p" for t
    using tiles_unique_span [OF tile spans_ordered_ends [OF that(1)], of t] that(2) by blast
  with tile lens show ?thesis by blast
qed

theorem spans_tile_timeline_witness:
  "script_invariant scenarioA \<and> durations_nonneg scenarioA
   \<and> spans (TimelineController_new scenarioA :: unit TimelineController)
       = [(0, 10), (10, 12), (12, 20)]
   \<and> tiles 0 (spans (TimelineController_new scenarioA :: unit TimelineController)) 20
   \<and> length (tc_sectionStartTimes (TimelineController_new scenarioA :: unit TimelineController)) = 2
   \<and> length (tc_transitionStartTimes (TimelineController_new scenarioA :: unit TimelineController)) = 1
   \<and> (0::real) \<le> 21 / 2 \<and> 21 / 2 < ps_totalDuration scenarioA
   \<and> (\<exists>!i. i < length (spans (TimelineController_new scenarioA :: unit TimelineController))
          \<and> fst (spans (TimelineController_new scenarioA :: unit TimelineController) ! i) \<le> 21 / 2
          \<and> 21 / 2 < snd (spans (TimelineController_new scenarioA :: unit TimelineController) ! i))"
proof -
  have inv: "script_invariant scenarioA"
    by (simp add: script_invariant_def scenarioA_def)
  have nn: "durations_nonneg scenarioA"
    by (simp add: durations_nonneg_def scenarioA_def)
  have vals: "ps_totalDuration scenarioA = 20" "length (ps_sections scenarioA) = 2"
      "length (ps_transitions scenarioA) = 1"
    by (simp_all add: scenarioA_def)
  have sp: "spans (TimelineController_new scenarioA :: unit TimelineController)
       = [(0, 10), (10, 12), (12, 20)]"
    by (simp add: spans_def spansAt_def sectionSpan_def transitionSpan_def
          TimelineController_new_def computeStartTimes_def computeStartTimes_step_def
          scenarioA_def upt_rec)
  have t: "(0::real) \<le> 21 / 2" "21 / 2 < ps_totalDuration scenarioA"
    by (simp_all add: vals)
  note main = spans_tile_timeline [OF inv, where 'l = unit]
  have tl: "tiles 0 (spans (TimelineController_new scenarioA :: unit TimelineController)) 20"
    using main vals(1) by simp
  have l1: "length (tc_sectionStartTimes
              (TimelineController_new scenarioA :: unit TimelineController)) = 2"
    using main vals(2) by simp
  have l2: "length (tc_transitionStartTimes
              (TimelineController_new scenarioA :: unit TimelineController)) = 1"
    using main vals(3) by simp
  have un: "\<exists>!i. i < length (spans (TimelineController_new scenarioA :: unit TimelineController))
          \<and> fst (spans (TimelineController_new scenarioA :: unit TimelineController) ! i) \<le> 21 / 2
          \<and> 21 / 2 < snd (spans (TimelineController_new scenarioA :: unit TimelineController) ! i)"
    using main nn t by blast
  show ?thesis
    using inv nn sp t tl l1 l2 un by blast
qed

text \<open>
  Claim C4 as stated fails when a duration is negative, which the data-model invariant
  allows. With two sections of 5 s joined by a transition of -4 s the invariant holds, the
  spans are \<open>[0, 5)\<close>, \<open>[5, 1)\<close> and \<open>[1, 6)\<close>, and time 3 lies both in the first span
  and in the last: the spans overlap.
\<close>

theorem spans_overlap_counterexample:
  "script_invariant negativeTransitionScript
   \<and> spans (TimelineController_new negativeTransitionScript :: unit TimelineController)
       = [(0, 5), (5, 1), (1, 6)]
   \<and> (0::real) \<le> 3 \<and> 3 < ps_totalDuration negativeTransitionScript
   \<and> fst (spans (TimelineController_new negativeTransitionScript :: unit TimelineController) ! 0) \<le> 3
   \<and> 3 < snd (spans (TimelineController_new negativeTransitionScript :: unit TimelineController) ! 0)
   \<and> fst (spans (TimelineController_new negativeTransitionScript :: unit TimelineController) ! 2) \<le> 3
   \<and> 3 < snd (spans (TimelineController_new negativeTransitionScript :: unit TimelineController) ! 2)
   \<and> \<not> (\<exists>!i. i < length (spans (TimelineController_new negativeTransitionScript
                                    :: unit TimelineController))
          \<and> fst (spans (TimelineController_new negativeTransitionScript :: unit TimelineController) ! i)
                \<le> 3
          \<and> 3 < snd (spans (TimelineController_new negativeTransitionScript
                               :: unit TimelineController) ! i))"
proof -
  have inv: "script_invariant negativeTransitionScript"
    by (simp add: script_invariant_def negativeTransitionScript_def)
  have sp: "spans (TimelineController_new negativeTransitionScript :: unit TimelineController)
       = [(0, 5), (5, 1), (1, 6)]"
    by (simp add: spans_def spansAt_def sectionSpan_def transitionSpan_def
          TimelineController_new_def computeStartTimes_def computeStartTimes_step_def
          negativeTransitionScript_def upt_rec)
  have tot: "ps_totalDuration negativeTransitionScript = 6"
    by (simp add: negativeTransitionScript_def)
  have two: "\<not> (\<exists>!i. i < length [(0::real, 5::real), (5, 1), (1, 6)]
          \<and> fst ([(0::real, 5::real), (5, 1), (1, 6)] ! i) \<le> 3
          \<and> 3 < snd ([(0::real, 5::real), (5, 1), (1, 6)] ! i))"
  proof
    assume "\<exists>!i. i < length [(0::real, 5::real), (5, 1), (1, 6)]
          \<and> fst ([(0::real, 5::real), (5, 1), (1, 6)] ! i) \<le> 3
          \<and> 3 < snd ([(0::real, 5::real), (5, 1), (1, 6)] ! i)"
    then obtain k where k: "\<And>i. i < length [(0::real, 5::real), (5, 1), (1, 6)]
          \<and> fst ([(0::real, 5::real), (5, 1), (1, 6)] ! i) \<le> 3
          \<and> 3 < snd ([(0::real, 5::real), (5, 1), (1, 6)] ! i) \<Longrightarrow> i = k"
      by blast
    have "(0::nat) = k" by (rule k) simp
    moreover have "(2::nat) = k" by (rule k) simp
    ultimately show False by simp
  qed
  show ?thesis unfolding sp tot using inv two by simp
qed

subsection \<open>Mapping a time to a state\<close>

lemma scanPartitions_globalTime:
  "scanPartitions c t is = Inr s \<Longrightarrow> st_globalTime s = t"
  by (induction "is")
     (auto simp: COMPLETE_STATE_def sectionState_def transitionState_def Let_def
           split: if_splits option.splits prod.splits)

lemma getStateAtTime_globalTime:
  "getStateAtTime c t = Inr s \<Longrightarrow>
     st_globalTime s = (if t \<ge> tc_totalDuration c then tc_totalDuration c else max 0 t)"
  by (auto simp: getStateAtTime_def COMPLETE_STATE_def dest: scanPartitions_globalTime
           split: if_splits)

lemma getStateAtTime_past_end:
  "t \<ge> tc_totalDuration c \<Longrightarrow>
     \<exists>s. getStateAtTime c t = Inr s \<and> st_phase s = PhaseComplete
         \<and> st_globalTime s = tc_totalDuration c"
  by (simp add: getStateAtTime_def COMPLETE_STATE_def)

lemma getStateAtTime_negative_clamped:
  "t < 0 \<Longrightarrow> 0 < tc_totalDuration c \<Longrightarrow> getStateAtTime c t = getStateAtTime c 0"
  by (simp add: getStateAtTime_def)

text \<open>
  Claim C3 at the input where the code departs from it: the script with no section, whose
  \<open>totalDuration\<close> is 0, and the time -1. \<open>getStateAtTime\<close> compares the time with
  \<open>totalDuration\<close> before it clamps it with \<open>Math.max(0, time)\<close>, so -1 is not taken as
  past the end; the scan finds no span and the call returns the fall-through after the
  loop, \<open>COMPLETE_STATE\<close> with \<open>sectionIndex = 0\<close>. At time 0 the first test holds and the
  terminal state is returned, with \<open>sectionIndex = sections.length - 1 = -1\<close>. The two
  states differ, where the claim has the negative time clamped to 0. The same happens on
  any timeline of zero duration with more or fewer than one section. On a timeline of
  positive duration a negative time does give the state at 0, and every time at or past
  \<open>totalDuration\<close> gives the terminal state pinned at \<open>totalDuration\<close> (the two lemmas
  above).
\<close>

theorem getStateAtTime_negative_zero_duration:
  "getStateAtTime (TimelineController_new emptyScript :: unit TimelineController) (- 1)
     = Inr \<lparr> st_phase = PhaseComplete, st_sectionIndex = 0, st_segmentIndex = 0,
             st_sectionProgress = 1, st_segmentProgress = 1,
             st_activeStepId = [], st_currentText = [], st_emphasis = [],
             st_globalTime = 0,
             st_fromSection = None, st_toSection = None, st_transitionProgress = None \<rparr>
   \<and> getStateAtTime (TimelineController_new emptyScript :: unit TimelineController) 0
     = Inr \<lparr> st_phase = PhaseComplete, st_sectionIndex = - 1, st_segmentIndex = 0,
             st_sectionProgress = 1, st_segmentProgress = 1,
             st_activeStepId = [], st_currentText = [], st_emphasis = [],
             st_globalTime = 0,
             st_fromSection = None, st_toSection = None, st_transitionProgress = None \<rparr>
   \<and> getStateAtTime (TimelineController_new emptyScript :: unit TimelineController) (- 1)
       \<noteq> getStateAtTime (TimelineController_new emptyScript :: unit TimelineController) 0"
  by (simp add: getStateAtTime_def COMPLETE_STATE_def new_fields emptyScript_def)

text \<open>
  Claim C5. For the script with two sections of total duration 10 and 8 joined by one
  transition of duration 2, with \<open>totalDuration = 20\<close> (whatever the other fields of the
  sections and of the transition are), \<open>getStateAtTime 10.5\<close> returns a state in phase
  \<open>transition\<close> with \<open>fromSection = 0\<close>, \<open>toSection = 1\<close> and
  \<open>transitionProgress = 0.25\<close>.
\<close>

theorem getStateAtTime_scenarioA:
  "getStateAtTime
     (TimelineController_new
        \<lparr> ps_paperTitle = title,
          ps_sections = [s1 \<lparr> sec_totalDuration := 10 \<rparr>, s2 \<lparr> sec_totalDuration := 8 \<rparr>],
          ps_transitions = [tr \<lparr> tr_duration := 2 \<rparr>],
          ps_totalDuration = 20 \<rparr>)
     10.5
   = Inr \<lparr> st_phase = PhaseTransition, st_sectionIndex = 0, st_segmentIndex = 0,
           st_sectionProgress = 1, st_segmentProgress = 1,
           st_activeStepId = [], st_currentText = [], st_emphasis = [],
           st_globalTime = 10.5,
           st_fromSection = Some 0, st_toSection = Some 1,
           st_transitionProgress = Some 0.25 \<rparr>"
  by (simp add: getStateAtTime_def TimelineController_new_def computeStartTimes_def
        computeStartTimes_step_def transitionState_def upt_rec)

subsection \<open>Reaching a section in the scan\<close>

lemma sst_nth:
  "k < length (ps_sections p) \<Longrightarrow>
     tc_sectionStartTimes (TimelineController_new p) ! k =
       sectionsBefore (ps_sections p) k
       + transitionsBefore (ps_transitions p) (min k (length (ps_transitions p)))"
  by (simp add: new_fields)

lemma tst_nth:
  "k < length (ps_sections p) \<Longrightarrow> k < length (ps_transitions p) \<Longrightarrow>
     tc_transitionStartTimes (TimelineController_new p) ! k =
       sectionsBefore (ps_sections p) (Suc k) + transitionsBefore (ps_transitions p) k"
  by (simp add: new_fields)

lemma sectionsBefore_mono:
  assumes "list_all (\<lambda>script. 0 \<le> sec_totalDuration script) secs"
    and "j \<le> k" and "k \<le> length secs"
  shows "sectionsBefore secs j \<le> sectionsBefore secs k"
  unfolding sectionsBefore_def
proof (rule sum_mono2)
  show "finite {..<k}" by simp
  show "{..<j} \<subseteq> {..<k}" using assms(2) by auto
  show "0 \<le> sec_totalDuration (secs ! b)" if "b \<in> {..<k} - {..<j}" for b
    using that assms(1,3) by (simp add: list_all_length)
qed

lemma transitionsBefore_mono:
  assumes "list_all (\<lambda>transition. 0 \<le> tr_duration transition) trs"
    and "j \<le> k" and "k \<le> length trs"
  shows "transitionsBefore trs j \<le> transitionsBefore trs k"
  unfolding transitionsBefore_def
proof (rule sum_mono2)
  show "finite {..<k}" by simp
  show "{..<j} \<subseteq> {..<k}" using assms(2) by auto
  show "0 \<le> tr_duration (trs ! b)" if "b \<in> {..<k} - {..<j}" for b
    using that assms(1,3) by (simp add: list_all_length)
qed

lemma scanPartitions_reaches_section:
  fixes p :: PresentationScript
  defines "c \<equiv> (TimelineController_new p :: 'l TimelineController)"
  assumes nonneg: "durations_nonneg p"
    and k: "k < length (ps_sections p)"
    and lo: "tc_sectionStartTimes c ! k \<le> t"
    and hi: "t < tc_sectionStartTimes c ! k + sec_totalDuration (ps_sections p ! k)"
    and j: "j \<le> k"
  shows "scanPartitions c t [j ..< length (ps_sections p)] =
           sectionState k (ps_sections p ! k) (tc_sectionStartTimes c ! k) t"
  using j
proof (induction "k - j" arbitrary: j)
  case 0
  then have jk: "j = k" by simp
  have "[k ..< length (ps_sections p)] = k # [Suc k ..< length (ps_sections p)]"
    using k by (simp add: upt_conv_Cons)
  then show ?case using lo hi jk
    by (simp add: Let_def c_def new_fields(1))
next
  case (Suc d)
  then have jk: "j < k" and d: "d = k - Suc j" and sj: "Suc j \<le> k" by simp_all
  let ?S = "sectionsBefore (ps_sections p)"
  let ?T = "transitionsBefore (ps_transitions p)"
  let ?m = "length (ps_transitions p)"
  from nonneg have nn: "list_all (\<lambda>script. 0 \<le> sec_totalDuration script) (ps_sections p)"
      "list_all (\<lambda>transition. 0 \<le> tr_duration transition) (ps_transitions p)"
    by (simp_all add: durations_nonneg_def)
  have jn: "j < length (ps_sections p)" using jk k by simp
  have sstk: "tc_sectionStartTimes c ! k = ?S k + ?T (min k ?m)"
    using k by (simp add: c_def sst_nth)
  have sstj: "tc_sectionStartTimes c ! j = ?S j + ?T (min j ?m)"
    using jn by (simp add: c_def sst_nth)
  have Sstep: "?S (Suc j) = ?S j + sec_totalDuration (ps_sections p ! j)"
    by (simp add: sectionsBefore_def)
  have S1: "?S (Suc j) \<le> ?S k"
    using sectionsBefore_mono [OF nn(1) sj] k by simp
  have T1: "?T (min j ?m) \<le> ?T (min k ?m)"
    using transitionsBefore_mono [OF nn(2), of "min j ?m" "min k ?m"] jk by simp
  have sec_end: "tc_sectionStartTimes c ! j + sec_totalDuration (ps_sections p ! j) \<le> t"
    using S1 T1 lo sstk sstj Sstep by simp
  have tr_end: "tc_transitionStartTimes c ! j + tr_duration (ps_transitions p ! j) \<le> t"
    if jm: "j < ?m"
  proof -
    have "tc_transitionStartTimes c ! j = ?S (Suc j) + ?T j"
      using jn jm by (simp add: c_def tst_nth)
    moreover have "?T (Suc j) = ?T j + tr_duration (ps_transitions p ! j)"
      by (simp add: transitionsBefore_def)
    moreover have "?T (Suc j) \<le> ?T (min k ?m)"
      using transitionsBefore_mono [OF nn(2), of "Suc j" "min k ?m"] jm sj by simp
    ultimately show ?thesis using S1 lo sstk by simp
  qed
  have "[j ..< length (ps_sections p)] = j # [Suc j ..< length (ps_sections p)]"
    using jn by (simp add: upt_conv_Cons)
  then have "scanPartitions c t [j ..< length (ps_sections p)] =
        scanPartitions c t [Suc j ..< length (ps_sections p)]"
    using sec_end tr_end by (auto simp: Let_def c_def new_fields(1,2))
  then show ?case using Suc.hyps(1) [OF d sj] by simp
qed

subsection \<open>Segment boundaries\<close>

lemma segments_chain_nth:
  "segments_chain segs \<Longrightarrow> Suc j < length segs \<Longrightarrow>
     seg_startTime (segs ! j) \<le> seg_startTime (segs ! Suc j)
     \<and> seg_endTime (segs ! j) = seg_startTime (segs ! Suc j)"
proof (induction segs arbitrary: j rule: segments_chain.induct)
  case (1 a b rest)
  then show ?case by (cases j) auto
qed simp_all

lemma segments_chain_tl: "segments_chain (a # rest) \<Longrightarrow> segments_chain rest"
  by (cases rest) auto

lemma segments_chain_start_mono:
  "segments_chain segs \<Longrightarrow> k < length segs \<Longrightarrow> j \<le> k \<Longrightarrow>
     seg_startTime (segs ! j) \<le> seg_startTime (segs ! k)"
proof (induction k)
  case 0
  then show ?case by simp
next
  case (Suc k)
  show ?case
  proof (cases "j = Suc k")
    case True
    then show ?thesis by simp
  next
    case False
    with Suc.prems have "j \<le> k" "k < length segs" by simp_all
    then have "seg_startTime (segs ! j) \<le> seg_startTime (segs ! k)"
      using Suc.IH Suc.prems(1) by simp
    also have "\<dots> \<le> seg_startTime (segs ! Suc k)"
      using segments_chain_nth [OF Suc.prems(1) Suc.prems(2)] by simp
    finally show ?thesis .
  qed
qed

lemma findActiveSegment_boundary:
  assumes "segments_chain segs" and "Suc i < length segs"
    and "t = seg_endTime (segs ! i)" and "t < seg_endTime (segs ! Suc i)"
  shows "findActiveSegment t s segs = Some (s + Suc i, segs ! Suc i)"
  using assms
proof (induction segs arbitrary: i s)
  case Nil
  then show ?case by simp
next
  case (Cons a rest)
  show ?case
  proof (cases i)
    case 0
    with Cons.prems obtain b rest' where rest: "rest = b # rest'"
      by (cases rest) auto
    from Cons.prems 0 rest have "t = seg_endTime a" "seg_endTime a = seg_startTime b"
        "t < seg_endTime b"
      by simp_all
    then show ?thesis using 0 rest by simp
  next
    case (Suc i')
    from Cons.prems Suc have len: "Suc i' < length rest" by simp
    then have ne: "rest \<noteq> []" by auto
    have chain: "segments_chain rest" using Cons.prems(1) by (rule segments_chain_tl)
    have t: "t = seg_endTime (rest ! i')" "t < seg_endTime (rest ! Suc i')"
      using Cons.prems Suc by simp_all
    have "seg_endTime a = seg_startTime (rest ! 0)"
      using segments_chain_nth [OF Cons.prems(1), of 0] ne by simp
    also have "\<dots> \<le> seg_startTime (rest ! Suc i')"
      using segments_chain_start_mono [OF chain len, of 0] by simp
    also have "\<dots> = t"
      using segments_chain_nth [OF chain len] t by simp
    finally have "\<not> t < seg_endTime a" by simp
    then show ?thesis
      using ne Cons.IH [OF chain len t, of "Suc s"] Suc by simp
  qed
qed

lemma getStateAtTime_in_section:
  fixes p :: PresentationScript
  defines "c \<equiv> (TimelineController_new p :: 'l TimelineController)"
  assumes inv: "script_invariant p" and nonneg: "durations_nonneg p"
    and k: "k < length (ps_sections p)"
    and lo: "tc_sectionStartTimes c ! k \<le> t"
    and hi: "t < tc_sectionStartTimes c ! k + sec_totalDuration (ps_sections p ! k)"
  shows "getStateAtTime c t = sectionState k (ps_sections p ! k) (tc_sectionStartTimes c ! k) t"
proof -
  let ?S = "sectionsBefore (ps_sections p)"
  let ?T = "transitionsBefore (ps_transitions p)"
  let ?m = "length (ps_transitions p)"
  let ?n = "length (ps_sections p)"
  from nonneg have nn: "list_all (\<lambda>script. 0 \<le> sec_totalDuration script) (ps_sections p)"
      "list_all (\<lambda>transition. 0 \<le> tr_duration transition) (ps_transitions p)"
    by (simp_all add: durations_nonneg_def)
  have sstk: "tc_sectionStartTimes c ! k = ?S k + ?T (min k ?m)"
    using k by (simp add: c_def sst_nth)
  from inv have tot: "ps_totalDuration p = sum_list (map sec_totalDuration (ps_sections p))
        + sum_list (map tr_duration (ps_transitions p))"
    by (simp add: script_invariant_def)
  have total: "tc_totalDuration c = ?S ?n + ?T ?m"
    by (simp add: c_def new_fields(3) tot sectionsBefore_all transitionsBefore_all)
  have "?S 0 \<le> ?S k" using sectionsBefore_mono [OF nn(1), of 0 k] k by simp
  moreover have "?T 0 \<le> ?T (min k ?m)"
    using transitionsBefore_mono [OF nn(2), of 0 "min k ?m"] by simp
  ultimately have "0 \<le> tc_sectionStartTimes c ! k"
    by (simp add: sstk sectionsBefore_def transitionsBefore_def)
  with lo have t0: "max 0 t = t" by simp
  have "?S (Suc k) = ?S k + sec_totalDuration (ps_sections p ! k)"
    by (simp add: sectionsBefore_def)
  moreover have "?S (Suc k) \<le> ?S ?n"
    using sectionsBefore_mono [OF nn(1), of "Suc k" ?n] k by simp
  moreover have "?T (min k ?m) \<le> ?T ?m"
    using transitionsBefore_mono [OF nn(2), of "min k ?m" ?m] by simp
  ultimately have "t < tc_totalDuration c"
    using hi sstk total by simp
  then have "getStateAtTime c t = scanPartitions c t [0 ..< ?n]"
    by (simp add: getStateAtTime_def t0 c_def new_fields(1))
  also have "\<dots> = sectionState k (ps_sections p ! k) (tc_sectionStartTimes c ! k) t"
    unfolding c_def
    by (rule scanPartitions_reaches_section [OF nonneg k lo [unfolded c_def] hi [unfolded c_def]]) simp
  finally show ?thesis .
qed

text \<open>
  Claim C6, as the code has it. Take a script that satisfies the data-model invariant and
  has no negative duration, a section \<open>k\<close> of it whose segments are sorted, contiguous and
  cover \<open>[0, totalDuration)\<close>, and an interior segment boundary: a local time \<open>boundary\<close>
  strictly inside the section's span that is the \<open>endTime\<close> of segment \<open>i\<close> and the
  \<open>startTime\<close> of segment \<open>i + 1\<close>. The scan tests half-open intervals
  \<open>startTime \<le> local < endTime\<close>, so segment \<open>i\<close> does not hold its own end: at that
  instant \<open>getStateAtTime\<close> resolves to the later segment, \<open>segmentIndex = i + 1\<close>, whenever
  that segment has a positive length.
\<close>

theorem segment_boundary_resolves_to_later:
  assumes "script_invariant p" and "durations_nonneg p"
    and "k < length (ps_sections p)"
    and "section_invariant (ps_sections p ! k)"
    and "Suc i < length (sec_segments (ps_sections p ! k))"
    and "boundary = seg_endTime (sec_segments (ps_sections p ! k) ! i)"
    and "0 < boundary" and "boundary < sec_totalDuration (ps_sections p ! k)"
    and "boundary < seg_endTime (sec_segments (ps_sections p ! k) ! Suc i)"
  shows "boundary = seg_startTime (sec_segments (ps_sections p ! k) ! Suc i)
    \<and> (\<exists>s. getStateAtTime (TimelineController_new p :: 'l TimelineController)
             (tc_sectionStartTimes (TimelineController_new p :: 'l TimelineController) ! k + boundary)
             = Inr s
           \<and> st_phase s = PhaseSection \<and> st_sectionIndex s = int k
           \<and> st_segmentIndex s = int (Suc i)
           \<and> st_currentText s = seg_text (sec_segments (ps_sections p ! k) ! Suc i))"
proof -
  let ?c = "TimelineController_new p :: 'l TimelineController"
  let ?script = "ps_sections p ! k"
  let ?start = "tc_sectionStartTimes ?c ! k"
  have chain: "segments_chain (sec_segments ?script)"
    using assms(4) by (simp add: section_invariant_def)
  have start: "boundary = seg_startTime (sec_segments ?script ! Suc i)"
    using segments_chain_nth [OF chain assms(5)] assms(6) by simp
  have found: "findActiveSegment boundary 0 (sec_segments ?script)
                 = Some (Suc i, sec_segments ?script ! Suc i)"
    using findActiveSegment_boundary [OF chain assms(5) assms(6) assms(9), of 0] by simp
  have "getStateAtTime ?c (?start + boundary) = sectionState k ?script ?start (?start + boundary)"
    using assms(7,8) by (intro getStateAtTime_in_section [OF assms(1,2,3)]) simp_all
  then show ?thesis
    using start found by (simp add: sectionState_def Let_def)
qed


theorem segment_boundary_resolves_to_later_witness:
  "script_invariant scenarioB \<and> durations_nonneg scenarioB
   \<and> 0 < length (ps_sections scenarioB)
   \<and> section_invariant (ps_sections scenarioB ! 0)
   \<and> Suc 0 < length (sec_segments (ps_sections scenarioB ! 0))
   \<and> 3 = seg_endTime (sec_segments (ps_sections scenarioB ! 0) ! 0)
   \<and> (0::real) < 3 \<and> 3 < sec_totalDuration (ps_sections scenarioB ! 0)
   \<and> 3 < seg_endTime (sec_segments (ps_sections scenarioB ! 0) ! Suc 0)
   \<and> 3 = seg_startTime (sec_segments (ps_sections scenarioB ! 0) ! Suc 0)
   \<and> (\<exists>s. getStateAtTime (TimelineController_new scenarioB :: unit TimelineController)
             (tc_sectionStartTimes (TimelineController_new scenarioB :: unit TimelineController) ! 0 + 3)
             = Inr s
           \<and> st_phase s = PhaseSection \<and> st_sectionIndex s = int 0
           \<and> st_segmentIndex s = int (Suc 0)
           \<and> st_currentText s = seg_text (sec_segments (ps_sections scenarioB ! 0) ! Suc 0))"
proof -
  have h1: "script_invariant scenarioB"
    by (simp add: script_invariant_def scenarioB_def)
  have h2: "durations_nonneg scenarioB"
    by (simp add: durations_nonneg_def scenarioB_def)
  have h3: "0 < length (ps_sections scenarioB)"
    by (simp add: scenarioB_def)
  have h4: "section_invariant (ps_sections scenarioB ! 0)"
    by (simp add: section_invariant_def scenarioB_def mkSegment_def)
  have h5: "Suc 0 < length (sec_segments (ps_sections scenarioB ! 0))"
    by (simp add: scenarioB_def)
  have h6: "3 = seg_endTime (sec_segments (ps_sections scenarioB ! 0) ! 0)"
    by (simp add: scenarioB_def mkSegment_def)
  have h7: "(0::real) < 3" by simp
  have h8: "3 < sec_totalDuration (ps_sections scenarioB ! 0)"
    by (simp add: scenarioB_def)
  have h9: "3 < seg_endTime (sec_segments (ps_sections scenarioB ! 0) ! Suc 0)"
    by (simp add: scenarioB_def mkSegment_def)
  note r = segment_boundary_resolves_to_later [OF h1 h2 h3 h4 h5 h6 h7 h8 h9, where 'l = unit]
  show ?thesis
    using h1 h2 h3 h4 h5 h6 h7 h8 h9 r by blast
qed

text \<open>
  Claim C6 as stated fails on the section with segments \<open>[0,3)\<close>, \<open>[3,6)\<close>, \<open>[6,9)\<close>: at
  the boundary 3 between segments 0 and 1, where segment 0 is not the last one,
  \<open>getStateAtTime\<close> reports \<open>segmentIndex = 1\<close>, not 0.
\<close>

theorem segment_boundary_counterexample:
  "section_invariant (ps_sections scenarioB ! 0)
   \<and> Suc 0 < length (sec_segments (ps_sections scenarioB ! 0))
   \<and> seg_endTime (sec_segments (ps_sections scenarioB ! 0) ! 0) = 3
   \<and> seg_startTime (sec_segments (ps_sections scenarioB ! 0) ! Suc 0) = 3
   \<and> (0::real) < 3 \<and> 3 < sec_totalDuration (ps_sections scenarioB ! 0)
   \<and> map_sum id st_segmentIndex
        (getStateAtTime (TimelineController_new scenarioB :: unit TimelineController) 3) = Inr 1
   \<and> map_sum id st_segmentIndex
        (getStateAtTime (TimelineController_new scenarioB :: unit TimelineController) 3) \<noteq> Inr 0"
  by (simp add: section_invariant_def scenarioB_def mkSegment_def getStateAtTime_def
        TimelineController_new_def computeStartTimes_def computeStartTimes_step_def
        sectionState_def Let_def upt_rec)

subsection \<open>Playback\<close>

lemma notify_globalTime:
  "notify c = Inr ns \<Longrightarrow> n \<in> set ns \<Longrightarrow> st_globalTime (snd n) = reportedTime c"
  by (auto simp: notify_def reportedTime_def split: sum.splits
           dest!: getStateAtTime_globalTime)

lemma delivered_of_globalTime:
  "n \<in> set (delivered_of (notify c)) \<Longrightarrow> st_globalTime (snd n) = reportedTime c"
  by (cases "notify c") (auto simp: delivered_of_def dest: notify_globalTime)

lemma reportedTime_mono:
  assumes "time_admissible c" and "tc_totalDuration c' = tc_totalDuration c"
    and "tc_currentTime c \<le> tc_currentTime c'"
  shows "reportedTime c \<le> reportedTime c'"
  using assms by (auto simp: reportedTime_def time_admissible_def)

lemma run_tick_unfold:
  fixes w :: "'l world" and ts :: real
  defines "c1 \<equiv> tick_advanced ts (w_ctl w)"
  defines "c2 \<equiv> c1 \<lparr> tc_currentTime := tc_totalDuration c1, tc_playing := False, tc_rafId := None \<rparr>"
  defines "c' \<equiv> w_ctl (run_tick ts w)"
  shows "(tc_totalDuration c1 \<le> tc_currentTime c1
            \<and> c' = c2
            \<and> w_delivered (run_tick ts w) = w_delivered w @ delivered_of (notify c2))
       \<or> (\<not> tc_totalDuration c1 \<le> tc_currentTime c1
            \<and> tc_currentTime c' = tc_currentTime c1 \<and> tc_totalDuration c' = tc_totalDuration c1
            \<and> tc_speed c' = tc_speed c1 \<and> tc_lastTimestamp c' = tc_lastTimestamp c1
            \<and> w_delivered (run_tick ts w) = w_delivered w @ delivered_of (notify c1))"
proof (cases "tc_totalDuration c1 \<le> tc_currentTime c1")
  case True
  then show ?thesis
    by (simp add: c'_def run_tick_def tick_def c1_def c2_def Let_def)
next
  case False
  then show ?thesis
    by (cases "notify (tick_advanced ts (w_ctl w))")
       (simp_all add: c'_def run_tick_def tick_def c1_def c2_def Let_def
          requestAnimationFrame_def delivered_of_def)
qed

lemma run_tick_effect:
  assumes adm: "time_admissible (w_ctl w)" and speed: "0 \<le> tc_speed (w_ctl w)"
    and last: "\<And>l. tc_lastTimestamp (w_ctl w) = Some l \<Longrightarrow> l \<le> ts"
  shows "tc_totalDuration (w_ctl (run_tick ts w)) = tc_totalDuration (w_ctl w)"
    and "tc_speed (w_ctl (run_tick ts w)) = tc_speed (w_ctl w)"
    and "tc_lastTimestamp (w_ctl (run_tick ts w)) = Some ts"
    and "reportedTime (w_ctl w) \<le> reportedTime (w_ctl (run_tick ts w))"
    and "\<exists>ns. w_delivered (run_tick ts w) = w_delivered w @ ns
            \<and> (\<forall>n \<in> set ns. st_globalTime (snd n) = reportedTime (w_ctl (run_tick ts w)))"
    and "time_admissible (w_ctl (run_tick ts w))"
proof -
  let ?c = "w_ctl w"
  let ?c1 = "tick_advanced ts ?c"
  let ?c2 = "?c1 \<lparr> tc_currentTime := tc_totalDuration ?c1, tc_playing := False, tc_rafId := None \<rparr>"
  let ?c' = "w_ctl (run_tick ts w)"
  have "(case tc_lastTimestamp ?c of None \<Rightarrow> ts | Some l \<Rightarrow> l) \<le> ts"
    using last by (auto split: option.splits)
  then have adv: "tc_currentTime ?c \<le> tc_currentTime ?c1"
    using speed by (simp add: tick_advanced_def Let_def)
  have c1: "tc_totalDuration ?c1 = tc_totalDuration ?c" "tc_speed ?c1 = tc_speed ?c"
      "tc_lastTimestamp ?c1 = Some ts"
    by (simp_all add: tick_advanced_def Let_def)
  note u = run_tick_unfold [of ts w]
  show "tc_totalDuration ?c' = tc_totalDuration ?c"
    using u c1 by auto
  show "tc_speed ?c' = tc_speed ?c"
    using u c1 by auto
  show "tc_lastTimestamp ?c' = Some ts"
    using u c1 by auto
  show "reportedTime ?c \<le> reportedTime ?c'"
    using u
  proof (elim disjE conjE)
    assume "tc_totalDuration ?c1 \<le> tc_currentTime ?c1" "?c' = ?c2"
    then show ?thesis using adm c1 by (auto simp: reportedTime_def time_admissible_def)
  next
    assume "\<not> tc_totalDuration ?c1 \<le> tc_currentTime ?c1"
      "tc_currentTime ?c' = tc_currentTime ?c1" "tc_totalDuration ?c' = tc_totalDuration ?c1"
    then show ?thesis using adm c1 adv by (auto simp: reportedTime_def time_admissible_def)
  qed
  show "\<exists>ns. w_delivered (run_tick ts w) = w_delivered w @ ns
            \<and> (\<forall>n \<in> set ns. st_globalTime (snd n) = reportedTime ?c')"
    using u
  proof (elim disjE conjE)
    assume "?c' = ?c2"
      "w_delivered (run_tick ts w) = w_delivered w @ delivered_of (notify ?c2)"
    then show ?thesis using delivered_of_globalTime [of _ ?c2] by auto
  next
    assume a: "tc_currentTime ?c' = tc_currentTime ?c1" "tc_totalDuration ?c' = tc_totalDuration ?c1"
      "w_delivered (run_tick ts w) = w_delivered w @ delivered_of (notify ?c1)"
    then have "reportedTime ?c' = reportedTime ?c1"
      by (simp add: reportedTime_def)
    then show ?thesis using a delivered_of_globalTime [of _ ?c1] by auto
  qed
  show "time_admissible ?c'"
    using u
  proof (elim disjE conjE)
    assume "?c' = ?c2"
    then show ?thesis by (simp add: time_admissible_def)
  next
    assume "tc_currentTime ?c' = tc_currentTime ?c1" "tc_totalDuration ?c' = tc_totalDuration ?c1"
    then show ?thesis using adm c1 adv by (auto simp: time_admissible_def)
  qed
qed

lemma sorted_all_equal: "\<forall>x \<in> set xs. x = (a::real) \<Longrightarrow> sorted xs"
  by (induction xs) auto

lemma ticks_effect:
  fixes w :: "'l world"
  assumes "time_admissible (w_ctl w)" and "0 \<le> tc_speed (w_ctl w)"
    and "\<And>l. tc_lastTimestamp (w_ctl w) = Some l \<Longrightarrow> l \<le> ts"
  shows "tc_totalDuration (w_ctl (fold (\<lambda>rid. run_tick ts) ids w)) = tc_totalDuration (w_ctl w)
       \<and> tc_speed (w_ctl (fold (\<lambda>rid. run_tick ts) ids w)) = tc_speed (w_ctl w)
       \<and> (\<forall>l. tc_lastTimestamp (w_ctl (fold (\<lambda>rid. run_tick ts) ids w)) = Some l \<longrightarrow>
              l = ts \<or> tc_lastTimestamp (w_ctl w) = Some l)
       \<and> reportedTime (w_ctl w) \<le> reportedTime (w_ctl (fold (\<lambda>rid. run_tick ts) ids w))
       \<and> time_admissible (w_ctl (fold (\<lambda>rid. run_tick ts) ids w))
       \<and> (\<exists>ns. w_delivered (fold (\<lambda>rid. run_tick ts) ids w) = w_delivered w @ ns
              \<and> sorted (globalTimes ns)
              \<and> (\<forall>g \<in> set (globalTimes ns).
                    reportedTime (w_ctl w) \<le> g
                    \<and> g \<le> reportedTime (w_ctl (fold (\<lambda>rid. run_tick ts) ids w))))"
  using assms
proof (induction ids arbitrary: w)
  case Nil
  show ?case using Nil.prems(1) by (simp add: globalTimes_def)
next
  case (Cons rid ids)
  let ?w1 = "run_tick ts w"
  let ?w2 = "fold (\<lambda>rid. run_tick ts) ids ?w1"
  note e = run_tick_effect [of w ts, OF Cons.prems(1) Cons.prems(2) Cons.prems(3)]
  have p2: "0 \<le> tc_speed (w_ctl ?w1)" using e(2) Cons.prems(2) by simp
  have p3: "\<And>l. tc_lastTimestamp (w_ctl ?w1) = Some l \<Longrightarrow> l \<le> ts" using e(3) by simp
  note IH = Cons.IH [of ?w1, OF e(6) p2 p3]
  from e(5) obtain ns1 where ns1: "w_delivered ?w1 = w_delivered w @ ns1"
      "\<forall>n \<in> set ns1. st_globalTime (snd n) = reportedTime (w_ctl ?w1)" by blast
  from IH obtain ns2 where ns2: "w_delivered ?w2 = w_delivered ?w1 @ ns2"
      "sorted (globalTimes ns2)"
      "\<forall>g \<in> set (globalTimes ns2). reportedTime (w_ctl ?w1) \<le> g \<and> g \<le> reportedTime (w_ctl ?w2)"
    by blast
  have mono2: "reportedTime (w_ctl ?w1) \<le> reportedTime (w_ctl ?w2)" using IH by blast
  have g1: "\<forall>g \<in> set (globalTimes ns1). g = reportedTime (w_ctl ?w1)"
    using ns1(2) by (auto simp: globalTimes_def)
  have s1: "sorted (globalTimes ns1)"
    using g1 by (rule sorted_all_equal)
  have "w_delivered ?w2 = w_delivered w @ (ns1 @ ns2)" using ns1(1) ns2(1) by simp
  moreover have "sorted (globalTimes (ns1 @ ns2))"
    using s1 ns2(2,3) g1 by (auto simp: globalTimes_def sorted_append)
  moreover have "\<forall>g \<in> set (globalTimes (ns1 @ ns2)).
      reportedTime (w_ctl w) \<le> g \<and> g \<le> reportedTime (w_ctl ?w2)"
    using g1 ns2(3) e(4) mono2 by (auto simp: globalTimes_def)
  ultimately have ex: "\<exists>ns. w_delivered ?w2 = w_delivered w @ ns \<and> sorted (globalTimes ns)
              \<and> (\<forall>g \<in> set (globalTimes ns).
                    reportedTime (w_ctl w) \<le> g \<and> g \<le> reportedTime (w_ctl ?w2))"
    by blast
  have "tc_totalDuration (w_ctl ?w2) = tc_totalDuration (w_ctl w)" using IH e(1) by simp
  moreover have "tc_speed (w_ctl ?w2) = tc_speed (w_ctl w)" using IH e(2) by simp
  moreover have "\<forall>l. tc_lastTimestamp (w_ctl ?w2) = Some l \<longrightarrow>
              l = ts \<or> tc_lastTimestamp (w_ctl w) = Some l"
    using IH e(3) by auto
  moreover have "reportedTime (w_ctl w) \<le> reportedTime (w_ctl ?w2)"
    using e(4) mono2 by simp
  moreover have "time_admissible (w_ctl ?w2)" using IH by blast
  ultimately show ?case using ex by simp
qed

lemma frame_effect:
  fixes w :: "'l world"
  assumes "time_admissible (w_ctl w)" and "0 \<le> tc_speed (w_ctl w)"
    and "\<And>l. tc_lastTimestamp (w_ctl w) = Some l \<Longrightarrow> l \<le> ts"
  shows "tc_totalDuration (w_ctl (frame ts w)) = tc_totalDuration (w_ctl w)
       \<and> tc_speed (w_ctl (frame ts w)) = tc_speed (w_ctl w)
       \<and> (\<forall>l. tc_lastTimestamp (w_ctl (frame ts w)) = Some l \<longrightarrow>
              l = ts \<or> tc_lastTimestamp (w_ctl w) = Some l)
       \<and> reportedTime (w_ctl w) \<le> reportedTime (w_ctl (frame ts w))
       \<and> time_admissible (w_ctl (frame ts w))
       \<and> (\<exists>ns. w_delivered (frame ts w) = w_delivered w @ ns \<and> sorted (globalTimes ns)
              \<and> (\<forall>g \<in> set (globalTimes ns).
                    reportedTime (w_ctl w) \<le> g \<and> g \<le> reportedTime (w_ctl (frame ts w))))"
proof -
  let ?w0 = "w \<lparr> w_host := (w_host w) \<lparr> h_pending := [] \<rparr> \<rparr>"
  have c0: "w_ctl ?w0 = w_ctl w" "w_delivered ?w0 = w_delivered w" by simp_all
  have "time_admissible (w_ctl ?w0)" "0 \<le> tc_speed (w_ctl ?w0)"
      "\<And>l. tc_lastTimestamp (w_ctl ?w0) = Some l \<Longrightarrow> l \<le> ts"
    using assms by simp_all
  from ticks_effect [OF this, of "h_pending (w_host w)"] show ?thesis
    unfolding frame_def c0 .
qed

lemma timestamps_append: "timestamps (xs @ ys) = timestamps xs @ timestamps ys"
  by (induction xs rule: timestamps.induct) simp_all

lemma speeds_append: "speeds (xs @ ys) = speeds xs @ speeds ys"
  by (induction xs rule: speeds.induct) simp_all

lemma playable_initial: "playable (initial_world script) future"
  by (simp add: playable_def initial_world_def TimelineController_new_def time_admissible_def
        split: prod.splits)

lemma playable_tail: "playable w (ts # future) \<Longrightarrow> playable w future"
  by (auto simp: playable_def split: option.splits)

lemma seek_playable: "0 \<le> tc_speed c \<Longrightarrow>
    0 \<le> tc_speed (fst (seek t c)) \<and> time_admissible (fst (seek t c))
    \<and> tc_lastTimestamp (fst (seek t c)) = None"
  by (simp add: seek_def Let_def time_admissible_def)

lemma pause_playable:
  "0 \<le> tc_speed (fst ch) \<Longrightarrow> time_admissible (fst ch) \<Longrightarrow>
    0 \<le> tc_speed (fst (pause ch)) \<and> time_admissible (fst (pause ch))
    \<and> tc_lastTimestamp (fst (pause ch)) = None"
  by (cases ch) (simp add: pause_def Let_def time_admissible_def cancelAnimationFrame_def
        split: option.splits)

lemma dispatch_playable:
  fixes w :: "'l world"
  assumes "playable w (timestamps (e # evs))" and "sorted (timestamps (e # evs))"
    and "list_all (\<lambda>s. 0 \<le> s) (speeds (e # evs))"
  shows "playable (dispatch e w) (timestamps evs)"
proof (cases e)
  case Play
  then show ?thesis using assms(1)
    by (auto simp: playable_def play_def requestAnimationFrame_def Let_def time_admissible_def
             split: option.splits)
next
  case Pause
  then show ?thesis
    using assms(1) pause_playable [of "(w_ctl w, w_host w)"]
    by (auto simp: playable_def split: prod.splits)
next
  case (Seek t)
  then show ?thesis
    using assms(1) seek_playable [of "w_ctl w" t]
    by (auto simp: playable_def split: prod.splits)
next
  case (SeekToSection k)
  then show ?thesis
    using assms(1) seek_playable [of "w_ctl w" "tc_sectionStartTimes (w_ctl w) ! nat k"]
    by (auto simp: playable_def seekToSection_def delivered_of_def split: prod.splits)
next
  case (SetSpeed s)
  then show ?thesis using assms(1,3)
    by (auto simp: playable_def setSpeed_def time_admissible_def split: option.splits)
next
  case (Subscribe l)
  then show ?thesis using assms(1)
    by (auto simp: playable_def subscribe_def time_admissible_def split: option.splits)
next
  case (Unsubscribe l)
  then show ?thesis using assms(1)
    by (auto simp: playable_def unsubscribe_def time_admissible_def split: option.splits)
next
  case Destroy
  then show ?thesis
    using assms(1) pause_playable [of "(w_ctl w, w_host w)"]
    by (auto simp: playable_def destroy_def time_admissible_def split: prod.splits)
next
  case (Frame ts)
  have bound: "\<And>l. tc_lastTimestamp (w_ctl w) = Some l \<Longrightarrow> l \<le> ts"
    using assms(1) Frame by (simp add: playable_def)
  have adm: "time_admissible (w_ctl w)" and sp: "0 \<le> tc_speed (w_ctl w)"
    using assms(1) by (simp_all add: playable_def)
  note f = frame_effect [OF adm sp bound]
  have later: "list_all (\<lambda>ts'. ts \<le> ts') (timestamps evs)"
    using assms(2) Frame by (simp add: list_all_iff)
  have "list_all (\<lambda>ts'. l \<le> ts') (timestamps evs)"
    if "tc_lastTimestamp (w_ctl (frame ts w)) = Some l" for l
  proof -
    from f that have "l = ts \<or> tc_lastTimestamp (w_ctl w) = Some l" by blast
    then show ?thesis
    proof
      assume "l = ts" then show ?thesis using later by simp
    next
      assume "tc_lastTimestamp (w_ctl w) = Some l"
      then show ?thesis using assms(1) Frame by (simp add: playable_def)
    qed
  qed
  then show ?thesis using f sp Frame
    by (auto simp: playable_def split: option.splits)
qed

lemma run_playable:
  fixes w :: "'l world"
  assumes "playable w (timestamps (history @ evs))" and "sorted (timestamps (history @ evs))"
    and "list_all (\<lambda>s. 0 \<le> s) (speeds (history @ evs))"
  shows "playable (run history w) (timestamps evs)"
  using assms
proof (induction history arbitrary: w)
  case Nil
  then show ?case by (simp add: run_def)
next
  case (Cons e history)
  have p: "playable (dispatch e w) (timestamps (history @ evs))"
    using dispatch_playable [of w e "history @ evs"] Cons.prems by simp
  have s: "sorted (timestamps (history @ evs))"
    using Cons.prems(2) by (cases e) simp_all
  have v: "list_all (\<lambda>s. 0 \<le> s) (speeds (history @ evs))"
    using Cons.prems(3) by (cases e) simp_all
  show ?case using Cons.IH [OF p s v] by (simp add: run_def)
qed

lemma dispatch_steady:
  fixes w :: "'l world"
  assumes "seek_free e" and "\<not> (e = Play \<and> restarts (w_ctl w))"
    and "\<And>ts. e \<noteq> Frame ts"
  shows "w_delivered (dispatch e w) = w_delivered w"
    and "reportedTime (w_ctl (dispatch e w)) = reportedTime (w_ctl w)"
proof -
  have "w_delivered (dispatch e w) = w_delivered w
      \<and> reportedTime (w_ctl (dispatch e w)) = reportedTime (w_ctl w)"
  proof (cases e)
    case Play
    then show ?thesis using assms(2)
      by (auto simp: play_def restarts_def requestAnimationFrame_def reportedTime_def Let_def
               split: prod.splits)
  next
    case Pause
    then show ?thesis
      by (simp add: pause_def cancelAnimationFrame_def reportedTime_def Let_def
            split: option.splits)
  next
    case (SetSpeed s)
    then show ?thesis by (simp add: setSpeed_def reportedTime_def)
  next
    case Destroy
    then show ?thesis
      by (simp add: destroy_def pause_def cancelAnimationFrame_def reportedTime_def Let_def
            split: option.splits)
  next
    case (Subscribe l)
    then show ?thesis by (simp add: subscribe_def reportedTime_def)
  next
    case (Unsubscribe l)
    then show ?thesis by (simp add: unsubscribe_def reportedTime_def)
  qed (use assms(1,3) in simp_all)
  then show "w_delivered (dispatch e w) = w_delivered w"
    and "reportedTime (w_ctl (dispatch e w)) = reportedTime (w_ctl w)"
    by simp_all
qed

lemma playing_run_monotone:
  fixes w :: "'l world"
  assumes "playable w (timestamps evs)"
    and "list_all seek_free evs" and "sorted (timestamps evs)"
    and "list_all (\<lambda>s. 0 \<le> s) (speeds evs)"
    and "no_restart evs w"
  shows "\<exists>ns. w_delivered (run evs w) = w_delivered w @ ns \<and> sorted (globalTimes ns)
              \<and> (\<forall>g \<in> set (globalTimes ns). reportedTime (w_ctl w) \<le> g)"
  using assms
proof (induction evs arbitrary: w)
  case Nil
  show ?case by (simp add: run_def globalTimes_def)
next
  case (Cons e evs)
  from Cons.prems(2) have rest: "list_all seek_free evs" and pe: "seek_free e" by simp_all
  from Cons.prems(5) have nr: "\<not> (e = Play \<and> restarts (w_ctl w))"
    and nr1: "no_restart evs (dispatch e w)" by simp_all
  have p1: "playable (dispatch e w) (timestamps evs)"
    using dispatch_playable [OF Cons.prems(1) Cons.prems(3) Cons.prems(4)] .
  have s1: "sorted (timestamps evs)"
    using Cons.prems(3) by (cases e) simp_all
  have v1: "list_all (\<lambda>s. 0 \<le> s) (speeds evs)"
    using Cons.prems(4) by (cases e) simp_all
  from Cons.IH [OF p1 rest s1 v1 nr1] obtain ns2 where
    ns2: "w_delivered (run evs (dispatch e w)) = w_delivered (dispatch e w) @ ns2"
      "sorted (globalTimes ns2)"
      "\<forall>g \<in> set (globalTimes ns2). reportedTime (w_ctl (dispatch e w)) \<le> g"
    by blast
  show ?case
  proof (cases "\<exists>ts. e = Frame ts")
    case False
    then have nf: "\<And>ts. e \<noteq> Frame ts" by blast
    note w1 = dispatch_steady [OF pe nr nf]
    show ?thesis using ns2 unfolding w1 by (auto simp: run_def)
  next
    case True
    then obtain ts where Frame: "e = Frame ts" by blast
    have bound: "\<And>l. tc_lastTimestamp (w_ctl w) = Some l \<Longrightarrow> l \<le> ts"
      using Cons.prems(1) Frame by (simp add: playable_def)
    have adm: "time_admissible (w_ctl w)" and sp: "0 \<le> tc_speed (w_ctl w)"
      using Cons.prems(1) by (simp_all add: playable_def)
    note f = frame_effect [OF adm sp bound]
    from f obtain ns1 where ns1: "w_delivered (frame ts w) = w_delivered w @ ns1"
        "sorted (globalTimes ns1)"
        "\<forall>g \<in> set (globalTimes ns1).
            reportedTime (w_ctl w) \<le> g \<and> g \<le> reportedTime (w_ctl (frame ts w))"
      by blast
    have mono: "reportedTime (w_ctl w) \<le> reportedTime (w_ctl (frame ts w))" using f by blast
    have d: "dispatch e w = frame ts w" using Frame by simp
    have "w_delivered (run (e # evs) w) = w_delivered w @ (ns1 @ ns2)"
      using ns1(1) ns2(1) d by (simp add: run_def)
    moreover have "sorted (globalTimes (ns1 @ ns2))"
      using ns1(2,3) ns2(2,3) unfolding d by (fastforce simp: globalTimes_def sorted_append)
    moreover have "\<forall>g \<in> set (globalTimes (ns1 @ ns2)). reportedTime (w_ctl w) \<le> g"
      using ns1(3) ns2(3) mono unfolding d by (fastforce simp: globalTimes_def)
    ultimately show ?thesis by blast
  qed
qed

lemmas timeline_eval =
  initial_world_def dispatch.simps subscribe_def TimelineController_new_def
  computeStartTimes_def computeStartTimes_step_def scenarioA_def upt_rec
  run_def frame_def run_tick_def tick_def tick_advanced_def play_def requestAnimationFrame_def
  setSpeed_def seek_def notify_def getStateAtTime_def sectionState_def transitionState_def
  COMPLETE_STATE_def mkSegment_def delivered_of_def delivered_since_def globalTimes_def Let_def
  restarts_def pause_def cancelAnimationFrame_def

lemma dispatch_Play_delivered: "w_delivered (dispatch Play w) = w_delivered w"
  by (simp add: play_def requestAnimationFrame_def Let_def split: prod.splits)

lemma scanPartitions_same_script:
  assumes "tc_sectionScripts c' = tc_sectionScripts c"
    and "tc_transitions c' = tc_transitions c"
    and "tc_sectionStartTimes c' = tc_sectionStartTimes c"
    and "tc_transitionStartTimes c' = tc_transitionStartTimes c"
  shows "scanPartitions c' x is = scanPartitions c x is"
  using assms by (induction "is") (simp_all add: Let_def)

lemma seek_notifies_state_at_target:
  "notify (fst (seek t c)) =
     (case getStateAtTime c (max 0 (min t (tc_totalDuration c))) of
        Inl e \<Rightarrow> Inl e
      | Inr state \<Rightarrow> Inr (map (\<lambda>listener. (listener, state)) (tc_listeners c)))"
proof -
  let ?c1 = "c \<lparr> tc_currentTime := max 0 (min t (tc_totalDuration c)), tc_lastTimestamp := None \<rparr>"
  have "scanPartitions ?c1 x is = scanPartitions c x is" for x "is"
    by (rule scanPartitions_same_script) simp_all
  then have "getStateAtTime ?c1 x = getStateAtTime c x" for x
    by (simp add: getStateAtTime_def)
  then show ?thesis by (simp add: seek_def notify_def Let_def split: sum.splits)
qed

text \<open>
  Claim C9, as the code has it. Take a controller built from any script, after any
  history of control calls and animation frames, and call \<open>play()\<close>. Then, for every
  following sequence of events without a seek (by \<open>seek()\<close> or \<open>seekToSection()\<close>), the
  states delivered to the subscribers have non-decreasing \<open>globalTime\<close>, provided that
  no frame timestamp is earlier than the one before it (as the host's frame clock
  guarantees), that no speed multiplier set so far is negative, and that no further
  \<open>play()\<close> finds the timeline stopped at its end, which would restart it from 0. This
  holds in particular while the timeline is playing, before any \<open>pause()\<close> or
  \<open>destroy()\<close>, and neither of these two moves the time. \<open>tick\<close> advances the time by
  \<open>delta * speed\<close> and guards neither factor. A \<open>seek(t)\<close> consumes no pending animation
  frame, and when the state at \<open>t\<close> clamped into \<open>[0, totalDuration]\<close> can be computed
  without a \<open>TypeError\<close>, that state is handed to the subscribers within the call; its
  \<open>globalTime\<close> is the clamped \<open>t\<close>, capped at \<open>totalDuration\<close> (a cap that matters only
  for a negative duration).
\<close>

theorem playing_globalTime_nondecreasing:
  fixes script :: PresentationScript and history evs :: "'l event list" and t :: real
  defines "w0 \<equiv> run history (initial_world script)"
  assumes "sorted (timestamps (history @ evs))"
    and "list_all (\<lambda>s. 0 \<le> s) (speeds (history @ evs))"
    and "list_all seek_free evs"
    and "no_restart evs (dispatch Play w0)"
  shows "sorted (globalTimes (delivered_since w0 (run evs (dispatch Play w0))))
     \<and> w_host (dispatch (Seek t) w0) = w_host w0
     \<and> (\<forall>s. getStateAtTime (w_ctl w0) (max 0 (min t (tc_totalDuration (w_ctl w0)))) = Inr s \<longrightarrow>
            delivered_since w0 (dispatch (Seek t) w0)
              = map (\<lambda>listener. (listener, s)) (tc_listeners (w_ctl w0))
            \<and> st_globalTime s
              = min (tc_totalDuration (w_ctl w0)) (max 0 (min t (tc_totalDuration (w_ctl w0)))))"
proof -
  have ts: "timestamps (history @ Play # evs) = timestamps (history @ evs)"
    and sp: "speeds (history @ Play # evs) = speeds (history @ evs)"
    by (simp_all add: timestamps_append speeds_append)
  have "playable w0 (timestamps (Play # evs))"
    unfolding w0_def
    by (rule run_playable) (simp_all add: ts sp assms(2,3) playable_initial)
  then have p: "playable (dispatch Play w0) (timestamps evs)"
    by (rule dispatch_playable)
       (use assms(2,3) in \<open>simp_all add: timestamps_append speeds_append sorted_append\<close>)
  have s: "sorted (timestamps evs)"
    using assms(2) by (simp add: timestamps_append sorted_append)
  have v: "list_all (\<lambda>s. 0 \<le> s) (speeds evs)"
    using assms(3) by (simp add: speeds_append)
  from playing_run_monotone [OF p assms(4) s v assms(5)] obtain ns where
    ns: "w_delivered (run evs (dispatch Play w0)) = w_delivered (dispatch Play w0) @ ns"
      "sorted (globalTimes ns)"
    by blast
  have "delivered_since w0 (run evs (dispatch Play w0)) = ns"
    unfolding delivered_since_def ns(1) dispatch_Play_delivered by simp
  then have a: "sorted (globalTimes (delivered_since w0 (run evs (dispatch Play w0))))"
    using ns(2) by simp
  have h: "w_host (dispatch (Seek t) w0) = w_host w0"
    by (simp add: seek_def Let_def)
  have d: "delivered_since w0 (dispatch (Seek t) w0) = delivered_of (notify (fst (seek t (w_ctl w0))))"
    by (simp add: delivered_since_def seek_def Let_def)
  have b: "delivered_since w0 (dispatch (Seek t) w0)
              = map (\<lambda>listener. (listener, s)) (tc_listeners (w_ctl w0))
            \<and> st_globalTime s
              = min (tc_totalDuration (w_ctl w0)) (max 0 (min t (tc_totalDuration (w_ctl w0))))"
    if "getStateAtTime (w_ctl w0) (max 0 (min t (tc_totalDuration (w_ctl w0)))) = Inr s" for s
  proof -
    have "delivered_since w0 (dispatch (Seek t) w0)
              = map (\<lambda>listener. (listener, s)) (tc_listeners (w_ctl w0))"
      unfolding d seek_notifies_state_at_target that by (simp add: delivered_of_def)
    moreover have "st_globalTime s
              = min (tc_totalDuration (w_ctl w0)) (max 0 (min t (tc_totalDuration (w_ctl w0))))"
      using getStateAtTime_globalTime [OF that] by auto
    ultimately show ?thesis by simp
  qed
  from a h b show ?thesis by blast
qed

theorem playing_globalTime_nondecreasing_witness:
  "sorted (timestamps ([Subscribe (0::nat), Seek 3]
             @ [Frame 0, Play, Frame 1000, Pause, SetSpeed 2, Subscribe 1, Play, Frame 2000, Frame 3000]))
   \<and> list_all (\<lambda>s. 0 \<le> s)
        (speeds ([Subscribe (0::nat), Seek 3]
           @ [Frame 0, Play, Frame 1000, Pause, SetSpeed 2, Subscribe 1, Play, Frame 2000, Frame 3000]))
   \<and> list_all seek_free [Frame 0, Play, Frame 1000, Pause, SetSpeed 2, Subscribe (1::nat), Play, Frame 2000, Frame 3000]
   \<and> no_restart [Frame 0, Play, Frame 1000, Pause, SetSpeed 2, Subscribe 1, Play, Frame 2000, Frame 3000]
        (dispatch Play (run [Subscribe (0::nat), Seek 3] (initial_world scenarioA)))
   \<and> globalTimes (delivered_since (run [Subscribe (0::nat), Seek 3] (initial_world scenarioA))
        (run [Frame 0, Play, Frame 1000, Pause, SetSpeed 2, Subscribe 1, Play, Frame 2000, Frame 3000]
           (dispatch Play (run [Subscribe (0::nat), Seek 3] (initial_world scenarioA)))))
       = [3, 4, 4, 4, 6, 6]
   \<and> sorted (globalTimes (delivered_since (run [Subscribe (0::nat), Seek 3] (initial_world scenarioA))
        (run [Frame 0, Play, Frame 1000, Pause, SetSpeed 2, Subscribe 1, Play, Frame 2000, Frame 3000]
           (dispatch Play (run [Subscribe (0::nat), Seek 3] (initial_world scenarioA))))))
   \<and> w_host (dispatch (Seek 25) (run [Subscribe (0::nat), Seek 3] (initial_world scenarioA)))
       = w_host (run [Subscribe (0::nat), Seek 3] (initial_world scenarioA))
   \<and> getStateAtTime (w_ctl (run [Subscribe (0::nat), Seek 3] (initial_world scenarioA)))
        (max 0 (min 25 (tc_totalDuration
                          (w_ctl (run [Subscribe (0::nat), Seek 3] (initial_world scenarioA))))))
       = Inr (COMPLETE_STATE \<lparr> st_globalTime := 20, st_sectionIndex := 1 \<rparr>)
   \<and> delivered_since (run [Subscribe (0::nat), Seek 3] (initial_world scenarioA))
        (dispatch (Seek 25) (run [Subscribe (0::nat), Seek 3] (initial_world scenarioA)))
       = [(0, COMPLETE_STATE \<lparr> st_globalTime := 20, st_sectionIndex := 1 \<rparr>)]
   \<and> st_globalTime (COMPLETE_STATE \<lparr> st_globalTime := 20, st_sectionIndex := 1 \<rparr>) = 20"
proof -
  have h1: "sorted (timestamps ([Subscribe (0::nat), Seek 3]
             @ [Frame 0, Play, Frame 1000, Pause, SetSpeed 2, Subscribe 1, Play, Frame 2000, Frame 3000]))"
    by simp
  have h2: "list_all (\<lambda>s. 0 \<le> s)
        (speeds ([Subscribe (0::nat), Seek 3]
           @ [Frame 0, Play, Frame 1000, Pause, SetSpeed 2, Subscribe 1, Play, Frame 2000, Frame 3000]))"
    by simp
  have h3: "list_all seek_free
        [Frame 0, Play, Frame 1000, Pause, SetSpeed 2, Subscribe (1::nat), Play, Frame 2000, Frame 3000]"
    by simp
  have h4: "no_restart [Frame 0, Play, Frame 1000, Pause, SetSpeed 2, Subscribe 1, Play, Frame 2000, Frame 3000]
        (dispatch Play (run [Subscribe (0::nat), Seek 3] (initial_world scenarioA)))"
    by (simp add: timeline_eval)
  have h5: "getStateAtTime (w_ctl (run [Subscribe (0::nat), Seek 3] (initial_world scenarioA)))
        (max 0 (min 25 (tc_totalDuration
                          (w_ctl (run [Subscribe (0::nat), Seek 3] (initial_world scenarioA))))))
       = Inr (COMPLETE_STATE \<lparr> st_globalTime := 20, st_sectionIndex := 1 \<rparr>)"
    by (simp add: timeline_eval)
  note r = playing_globalTime_nondecreasing [OF h1 h2 h3 h4, of 25]
  have e1: "globalTimes (delivered_since (run [Subscribe (0::nat), Seek 3] (initial_world scenarioA))
        (run [Frame 0, Play, Frame 1000, Pause, SetSpeed 2, Subscribe 1, Play, Frame 2000, Frame 3000]
           (dispatch Play (run [Subscribe (0::nat), Seek 3] (initial_world scenarioA)))))
       = [3, 4, 4, 4, 6, 6]"
    by (simp add: timeline_eval)
  have e2: "st_globalTime (COMPLETE_STATE \<lparr> st_globalTime := 20, st_sectionIndex := 1 \<rparr>) = 20"
    by simp
  have e3: "tc_listeners (w_ctl (run [Subscribe (0::nat), Seek 3] (initial_world scenarioA))) = [0]"
    by (simp add: timeline_eval)
  have e4: "delivered_since (run [Subscribe (0::nat), Seek 3] (initial_world scenarioA))
        (dispatch (Seek 25) (run [Subscribe (0::nat), Seek 3] (initial_world scenarioA)))
       = [(0, COMPLETE_STATE \<lparr> st_globalTime := 20, st_sectionIndex := 1 \<rparr>)]"
    using r h5 e3 by simp
  show ?thesis using h1 h2 h3 h4 h5 r e1 e2 e4 by blast
qed

text \<open>
  Claim C9 as stated quantifies over every speed multiplier and every sequence of tick
  timestamps, and lets only a \<open>seek()\<close> move the time back. After \<open>setSpeed(-1)\<close> the next
  tick moves the reported time back from 1 s to 0.5 s; so does a tick whose timestamp is
  earlier than the one before it. When a tick has reached the end of the timeline, which
  stops it, a further \<open>play()\<close> restarts from 0, and the next tick reports 0 after 20.
  And a \<open>seek(3)\<close> into a section that has no segment throws a \<open>TypeError\<close> while it
  computes the state, so that its subscriber is handed nothing.
\<close>

theorem playing_globalTime_counterexample:
  "globalTimes (delivered_since (run [Subscribe (0::nat)] (initial_world scenarioA))
      (run [Frame 0, Frame 1000, SetSpeed (- 1), Frame 1500]
         (dispatch Play (run [Subscribe (0::nat)] (initial_world scenarioA))))) = [0, 1, 1 / 2]
   \<and> \<not> sorted (globalTimes (delivered_since (run [Subscribe (0::nat)] (initial_world scenarioA))
      (run [Frame 0, Frame 1000, SetSpeed (- 1), Frame 1500]
         (dispatch Play (run [Subscribe (0::nat)] (initial_world scenarioA))))))
   \<and> globalTimes (delivered_since (run [Subscribe (0::nat)] (initial_world scenarioA))
      (run [Frame 1000, Frame 2000, Frame 1500]
         (dispatch Play (run [Subscribe (0::nat)] (initial_world scenarioA))))) = [0, 1, 1 / 2]
   \<and> \<not> sorted (globalTimes (delivered_since (run [Subscribe (0::nat)] (initial_world scenarioA))
      (run [Frame 1000, Frame 2000, Frame 1500]
         (dispatch Play (run [Subscribe (0::nat)] (initial_world scenarioA))))))
   \<and> globalTimes (delivered_since (run [Subscribe (0::nat)] (initial_world scenarioA))
      (run [Frame 0, Frame 25000, Play, Frame 30000]
         (dispatch Play (run [Subscribe (0::nat)] (initial_world scenarioA))))) = [0, 20, 0]
   \<and> \<not> sorted (globalTimes (delivered_since (run [Subscribe (0::nat)] (initial_world scenarioA))
      (run [Frame 0, Frame 25000, Play, Frame 30000]
         (dispatch Play (run [Subscribe (0::nat)] (initial_world scenarioA))))))
   \<and> tc_listeners (w_ctl (run [Subscribe (0::nat)] (initial_world noSegmentsScript))) = [0]
   \<and> notify (w_ctl (dispatch (Seek 3) (run [Subscribe (0::nat)] (initial_world noSegmentsScript))))
       = Inl TypeError
   \<and> delivered_since (run [Subscribe (0::nat)] (initial_world noSegmentsScript))
        (dispatch (Seek 3) (run [Subscribe (0::nat)] (initial_world noSegmentsScript))) = []"
proof -
  have e1: "globalTimes (delivered_since (run [Subscribe (0::nat)] (initial_world scenarioA))
      (run [Frame 0, Frame 1000, SetSpeed (- 1), Frame 1500]
         (dispatch Play (run [Subscribe (0::nat)] (initial_world scenarioA))))) = [0, 1, 1 / 2]"
    by (simp add: timeline_eval)
  have e2: "globalTimes (delivered_since (run [Subscribe (0::nat)] (initial_world scenarioA))
      (run [Frame 1000, Frame 2000, Frame 1500]
         (dispatch Play (run [Subscribe (0::nat)] (initial_world scenarioA))))) = [0, 1, 1 / 2]"
    by (simp add: timeline_eval)
  have e3: "globalTimes (delivered_since (run [Subscribe (0::nat)] (initial_world scenarioA))
      (run [Frame 0, Frame 25000, Play, Frame 30000]
         (dispatch Play (run [Subscribe (0::nat)] (initial_world scenarioA))))) = [0, 20, 0]"
    by (simp add: timeline_eval)
  have ns: "\<not> sorted [0 :: real, 1, 1 / 2]"
    by (simp only: sorted2) simp
  have ns3: "\<not> sorted [0 :: real, 20, 0]"
    by (simp only: sorted2) simp
  have s1: "tc_listeners (w_ctl (run [Subscribe (0::nat)] (initial_world noSegmentsScript))) = [0]"
    by (simp add: timeline_eval noSegmentsScript_def)
  have s2: "notify (w_ctl (dispatch (Seek 3)
                      (run [Subscribe (0::nat)] (initial_world noSegmentsScript))))
       = Inl TypeError"
    by (simp add: timeline_eval noSegmentsScript_def)
  have s3: "delivered_since (run [Subscribe (0::nat)] (initial_world noSegmentsScript))
        (dispatch (Seek 3) (run [Subscribe (0::nat)] (initial_world noSegmentsScript))) = []"
    by (simp add: timeline_eval noSegmentsScript_def)
  show ?thesis
    unfolding e1 e2 e3 s1 s2 s3 using ns ns3 by (intro conjI refl)
qed

subsection \<open>Seeking\<close>

text \<open>
  Claim C10. For every state of the controller and every time \<open>t\<close>, \<open>seek(t)\<close> changes
  only the accumulated current time, set to \<open>t\<close> clamped by \<open>max 0 (min t totalDuration)\<close>,
  and the tick delta baseline, reset to none. The playing flag, the speed multiplier, the
  subscribers, the precomputed section and transition start offsets, the scripts and the
  frame handle are unchanged, and no animation frame is requested or cancelled: a seek
  neither starts nor stops playback.
\<close>

theorem seek_changes_time_only:
  "w_ctl (dispatch (Seek t) w)
     = (w_ctl w) \<lparr> tc_currentTime := max 0 (min t (tc_totalDuration (w_ctl w))),
                     tc_lastTimestamp := None \<rparr>
   \<and> tc_currentTime (w_ctl (dispatch (Seek t) w)) = max 0 (min t (tc_totalDuration (w_ctl w)))
   \<and> tc_lastTimestamp (w_ctl (dispatch (Seek t) w)) = None
   \<and> tc_playing (w_ctl (dispatch (Seek t) w)) = tc_playing (w_ctl w)
   \<and> tc_speed (w_ctl (dispatch (Seek t) w)) = tc_speed (w_ctl w)
   \<and> tc_listeners (w_ctl (dispatch (Seek t) w)) = tc_listeners (w_ctl w)
   \<and> tc_sectionStartTimes (w_ctl (dispatch (Seek t) w)) = tc_sectionStartTimes (w_ctl w)
   \<and> tc_transitionStartTimes (w_ctl (dispatch (Seek t) w)) = tc_transitionStartTimes (w_ctl w)
   \<and> tc_rafId (w_ctl (dispatch (Seek t) w)) = tc_rafId (w_ctl w)
   \<and> tc_sectionScripts (w_ctl (dispatch (Seek t) w)) = tc_sectionScripts (w_ctl w)
   \<and> tc_transitions (w_ctl (dispatch (Seek t) w)) = tc_transitions (w_ctl w)
   \<and> tc_totalDuration (w_ctl (dispatch (Seek t) w)) = tc_totalDuration (w_ctl w)
   \<and> w_host (dispatch (Seek t) w) = w_host w"
  by (simp add: seek_def Let_def)

section \<open>Properties of the keyframe engine\<close>

text \<open>
  Claim C7, as the code has it. For every non-empty list of keyframes (sorted ascending by
  time or not) and every progress value, with \<open>p\<close> the progress clamped to \<open>[0, 1]\<close>: if
  \<open>p\<close> is at or before the first keyframe's time, \<open>interpolateKeyframes\<close> returns the
  first keyframe's explicit fields with every unspecified field defaulted (0 for the
  position offsets and rotations, 1 for scale and opacity, the colour as it is); if \<open>p\<close>
  is at or after the last keyframe's time and strictly after the first keyframe's time,
  or the list has a single keyframe, it returns the last keyframe's fields so defaulted.
  In particular, when the first keyframe's time is not negative, progress 0 gives the
  first keyframe; when the last keyframe's time is at most 1 and the first keyframe's
  time is below 1 (or the list has a single keyframe), progress 1 gives the last one.
  The test against the first keyframe comes before the test against the last.
\<close>

theorem interpolateKeyframes_boundaries:
  assumes "keyframes \<noteq> []"
  shows "(max 0 (min 1 progress) \<le> kf_time (hd keyframes) \<longrightarrow>
            interpolateKeyframes parseEase gsapInterpolate keyframes progress
              = Inr (keyframeState (hd keyframes)))
       \<and> (max 0 (min 1 progress) \<ge> kf_time (last keyframes)
            \<and> (length keyframes = 1 \<or> kf_time (hd keyframes) < max 0 (min 1 progress)) \<longrightarrow>
            interpolateKeyframes parseEase gsapInterpolate keyframes progress
              = Inr (keyframeState (last keyframes)))
       \<and> (0 \<le> kf_time (hd keyframes) \<longrightarrow>
            interpolateKeyframes parseEase gsapInterpolate keyframes 0
              = Inr (keyframeState (hd keyframes)))
       \<and> (kf_time (last keyframes) \<le> 1
            \<and> (length keyframes = 1 \<or> kf_time (hd keyframes) < 1) \<longrightarrow>
            interpolateKeyframes parseEase gsapInterpolate keyframes 1
              = Inr (keyframeState (last keyframes)))"
proof -
  from assms have h: "keyframes ! 0 = hd keyframes"
    and l: "keyframes ! (length keyframes - Suc 0) = last keyframes"
    by (simp_all add: hd_conv_nth last_conv_nth)
  have one: "length keyframes = Suc 0 \<Longrightarrow> last keyframes = hd keyframes"
    using h l by simp
  show ?thesis
    using assms one by (auto simp: interpolateKeyframes_def Let_def h l)
qed

theorem interpolateKeyframes_boundaries_witness:
  "scenarioD \<noteq> []
   \<and> max 0 (min 1 (- 2)) \<le> kf_time (hd scenarioD)
   \<and> interpolateKeyframes sampleParseEase noInterpolate scenarioD (- 2) = Inr (keyframeState (hd scenarioD))
   \<and> max 0 (min 1 3) \<ge> kf_time (last scenarioD)
   \<and> kf_time (hd scenarioD) < max 0 (min 1 3)
   \<and> interpolateKeyframes sampleParseEase noInterpolate scenarioD 3 = Inr (keyframeState (last scenarioD))
   \<and> 0 \<le> kf_time (hd scenarioD)
   \<and> interpolateKeyframes sampleParseEase noInterpolate scenarioD 0 = Inr (keyframeState (hd scenarioD))
   \<and> kf_time (last scenarioD) \<le> 1 \<and> kf_time (hd scenarioD) < 1
   \<and> interpolateKeyframes sampleParseEase noInterpolate scenarioD 1 = Inr (keyframeState (last scenarioD))
   \<and> is_x (keyframeState (hd scenarioD)) = Finite 0 \<and> is_opacity (keyframeState (hd scenarioD)) = Finite 0
   \<and> is_scaleX (keyframeState (hd scenarioD)) = Finite 1
   \<and> is_x (keyframeState (last scenarioD)) = Finite 100 \<and> is_opacity (keyframeState (last scenarioD)) = Finite 1"
proof -
  have ne: "scenarioD \<noteq> []" by (simp add: scenarioD_def)
  have t: "kf_time (hd scenarioD) = 0" "kf_time (last scenarioD) = 1"
    by (simp_all add: scenarioD_def emptyKeyframe_def)
  have v: "is_x (keyframeState (hd scenarioD)) = Finite 0" "is_opacity (keyframeState (hd scenarioD)) = Finite 0"
      "is_scaleX (keyframeState (hd scenarioD)) = Finite 1"
      "is_x (keyframeState (last scenarioD)) = Finite 100" "is_opacity (keyframeState (last scenarioD)) = Finite 1"
    by (simp_all add: scenarioD_def emptyKeyframe_def keyframeState_def normalizeScale_def orElse_def)
  note lo = interpolateKeyframes_boundaries
    [OF ne, of "- 2" sampleParseEase noInterpolate]
  note hi = interpolateKeyframes_boundaries
    [OF ne, of 3 sampleParseEase noInterpolate]
  show ?thesis
    using ne lo hi v by (simp add: t)
qed

text \<open>
  Claim C7 as stated fails when every keyframe has the same time: the list is sorted
  ascending, progress 0.5 is at or after the last keyframe's time 0.5, and the result is
  the first keyframe (\<open>x = 0\<close>), not the last (\<open>x = 100\<close>).
\<close>

theorem interpolateKeyframes_tie_counterexample:
  "tiedKeyframes \<noteq> [] \<and> sorted (map kf_time tiedKeyframes)
   \<and> max 0 (min 1 (1 / 2)) \<ge> kf_time (last tiedKeyframes)
   \<and> map_sum id is_x (interpolateKeyframes sampleParseEase noInterpolate tiedKeyframes (1 / 2))
       = Inr (Finite 0)
   \<and> is_x (keyframeState (last tiedKeyframes)) = Finite 100
   \<and> interpolateKeyframes sampleParseEase noInterpolate tiedKeyframes (1 / 2)
       \<noteq> Inr (keyframeState (last tiedKeyframes))"
proof -
  have x1: "map_sum id is_x
              (interpolateKeyframes sampleParseEase noInterpolate tiedKeyframes (1 / 2))
       = Inr (Finite 0)"
    by (simp add: tiedKeyframes_def emptyKeyframe_def interpolateKeyframes_def keyframeState_def
          normalizeScale_def orElse_def Let_def)
  have x2: "is_x (keyframeState (last tiedKeyframes)) = Finite 100"
    by (simp add: tiedKeyframes_def emptyKeyframe_def keyframeState_def normalizeScale_def
          orElse_def)
  have ne: "interpolateKeyframes sampleParseEase noInterpolate tiedKeyframes (1 / 2)
       \<noteq> Inr (keyframeState (last tiedKeyframes))"
    using x1 x2 by auto
  have pre: "tiedKeyframes \<noteq> []" "sorted (map kf_time tiedKeyframes)"
      "max 0 (min 1 (1 / 2)) \<ge> kf_time (last tiedKeyframes)"
    by (simp_all add: tiedKeyframes_def emptyKeyframe_def)
  show ?thesis using pre x1 x2 ne by blast
qed

lemma easeProgress_unknown_name:
  assumes "easingAliases name = None" and "parseEase (EaseName name) = None"
  shows "easeProgress parseEase p name = Inr (Num (max 0 (min 1 p)))"
  using assms by (simp add: easeProgress_def gsapName_def Let_def)

lemma gsapName_aliases:
  "map gsapName [''linear'', ''easeIn'', ''easeOut'', ''easeInOut'', ''backOut'', ''cubicOut'',
                 ''cubicInOut'', ''bounceOut'', ''elasticOut'', ''quadOut'', ''spring'']
     = map EaseName
         [''none'', ''power1.in'', ''power1.out'', ''power2.inOut'', ''back.out(1.7)'',
          ''power3.out'', ''power3.inOut'', ''bounce.out'', ''elastic.out(1, 0.3)'',
          ''power1.out'', ''back.out(2.5)'']"
  by (simp add: gsapName_def easingAliases_def ownAliases_def)

text \<open>
  Claim C8 at the input where the code departs from it: the easing name \<open>valueOf\<close>, which
  is neither a legacy alias nor a curve of the library, so that the claim has
  \<open>easeProgress p 'valueOf'\<close> equal to \<open>p\<close> clamped to \<open>[0, 1]\<close>. The alias table is an
  object literal, and \<open>easingAliases['valueOf']\<close> finds the function
  \<open>Object.prototype.valueOf\<close> that the literal inherits; being truthy, it is what
  \<open>easingAliases[easing] || easing\<close> passes to \<open>gsap.parseEase\<close>. With a library that
  returns a function it is given, as \<open>gsap.parseEase\<close> does, \<open>easeFn(clamped)\<close> then calls
  that function without a receiver and throws a \<open>TypeError\<close>, for every progress \<open>p\<close>. A
  name that is neither an alias nor inherited, and that the library does not know, does
  give \<open>p\<close> clamped (lemma \<open>easeProgress_unknown_name\<close>).
\<close>

theorem easeProgress_inherited_name_throws:
  assumes "parseEase (Inherited ''valueOf'') = Some (Builtin ''valueOf'')"
  shows "map_of ownAliases ''valueOf'' = None
       \<and> gsapName ''valueOf'' = Inherited ''valueOf''
       \<and> easeProgress parseEase p ''valueOf'' = Inl TypeError
       \<and> easeProgress parseEase p ''valueOf'' \<noteq> Inr (Num (max 0 (min 1 p)))"
proof -
  have own: "map_of ownAliases ''valueOf'' = None"
    by (simp add: ownAliases_def)
  have name: "gsapName ''valueOf'' = Inherited ''valueOf''"
    by (simp add: gsapName_def easingAliases_def own objectPrototypeMembers_def)
  have "easeProgress parseEase p ''valueOf'' = Inl TypeError"
    by (simp add: easeProgress_def name assms callBuiltin_def Let_def)
  with own name show ?thesis by simp
qed

theorem easeProgress_inherited_name_throws_witness:
  "sampleParseEase (Inherited ''valueOf'') = Some (Builtin ''valueOf'')
   \<and> sampleParseEase (EaseName ''valueOf'') = None
   \<and> gsapName ''valueOf'' = Inherited ''valueOf''
   \<and> easeProgress sampleParseEase (1 / 2) ''valueOf'' = Inl TypeError
   \<and> easeProgress sampleParseEase (1 / 2) ''valueOf'' \<noteq> Inr (Num (1 / 2))
   \<and> easeProgress sampleParseEase (1 / 2) ''wobble'' = Inr (Num (1 / 2))
   \<and> easeProgress sampleParseEase (1 / 2) ''easeOut'' = Inr (Num (3 / 4))"
proof -
  have h: "sampleParseEase (Inherited ''valueOf'') = Some (Builtin ''valueOf'')"
    by (simp add: sampleParseEase_def)
  have u: "sampleParseEase (EaseName ''valueOf'') = None"
    by (simp add: sampleParseEase_def)
  have w: "easeProgress sampleParseEase (1 / 2) ''wobble'' = Inr (Num (1 / 2))"
    by (simp add: easeProgress_def sampleParseEase_def gsapName_def easingAliases_def
          ownAliases_def objectPrototypeMembers_def)
  have m: "easeProgress sampleParseEase (1 / 2) ''easeOut'' = Inr (Num (3 / 4))"
    by (simp add: easeProgress_def sampleParseEase_def gsapName_def easingAliases_def
          ownAliases_def)
  show ?thesis
    using h u w m
      easeProgress_inherited_name_throws [where parseEase = sampleParseEase and p = "1 / 2"]
    by simp
qed

section \<open>Properties of the script repair\<close>

lemma has_nonspace_dropWhile: "has_nonspace (dropWhile is_space s) = has_nonspace s"
  by (induction s) (auto simp: has_nonspace_def)

lemma has_nonspace_rev: "has_nonspace (rev s) = has_nonspace s"
  by (simp add: has_nonspace_def list_ex_iff)

lemma has_nonspace_trim: "has_nonspace (trim s) = has_nonspace s"
  by (simp add: trim_def has_nonspace_rev has_nonspace_dropWhile)

lemma is_space_blank: "is_space (CHR '' '')"
  by (simp add: is_space_def)

lemma has_nonspace_collapse: "has_nonspace (collapseSpaces_from inRun s) = has_nonspace s"
  by (induction s arbitrary: inRun) (simp_all add: has_nonspace_def is_space_blank)

lemma has_nonspace_normalize: "has_nonspace (normalizeSpaces s) = has_nonspace s"
  by (simp add: normalizeSpaces_def collapseSpaces_def has_nonspace_trim has_nonspace_collapse)

lemma dropWhile_nonempty_has_nonspace:
  "dropWhile is_space s \<noteq> [] \<Longrightarrow> has_nonspace (dropWhile is_space s)"
  by (induction s) (auto simp: has_nonspace_def)

lemma trim_nonempty: "(trim s \<noteq> []) = has_nonspace s"
proof
  assume "trim s \<noteq> []"
  then have "dropWhile is_space (rev (dropWhile is_space s)) \<noteq> []"
    by (simp add: trim_def)
  then have "has_nonspace (dropWhile is_space (rev (dropWhile is_space s)))"
    by (rule dropWhile_nonempty_has_nonspace)
  then show "has_nonspace s"
    by (simp add: has_nonspace_dropWhile has_nonspace_rev)
next
  assume "has_nonspace s"
  then have "has_nonspace (trim s)" by (simp add: has_nonspace_trim)
  then show "trim s \<noteq> []" by (auto simp: has_nonspace_def)
qed

lemma normalizeSpaces_nonempty: "(normalizeSpaces s \<noteq> []) = has_nonspace s"
  by (simp add: normalizeSpaces_def trim_nonempty collapseSpaces_def has_nonspace_collapse)

lemma ensureSentence_nonempty: "(ensureSentence s \<noteq> []) = has_nonspace s"
proof -
  have "(ensureSentence s \<noteq> []) = (normalizeSpaces s \<noteq> [])"
    by (cases "normalizeSpaces s") (simp_all add: ensureSentence_def Let_def)
  then show ?thesis by (simp add: normalizeSpaces_nonempty)
qed

lemma sentences_have_nonspace:
  "sentence \<in> set (splitIntoSentences narration) \<Longrightarrow> has_nonspace sentence"
proof -
  assume "sentence \<in> set (splitIntoSentences narration)"
  then obtain piece where "sentence = normalizeSpaces piece" "sentence \<noteq> []"
    by (auto simp: splitIntoSentences_def split: if_splits)
  then have "has_nonspace piece" by (simp add: normalizeSpaces_nonempty)
  then show ?thesis using \<open>sentence = normalizeSpaces piece\<close>
    by (simp add: has_nonspace_normalize)
qed

lemma has_nonspace_Cons: "\<not> is_space c \<Longrightarrow> has_nonspace (c # s)"
  by (simp add: has_nonspace_def)

lemma buildSegmentNarration_nonempty:
  assumes "\<And>f. fallbackSentence = Some f \<Longrightarrow> f \<noteq> [] \<Longrightarrow> has_nonspace f"
  shows "buildSegmentNarration step fallbackSentence sectionConcept sectionTitle stepIndex \<noteq> []"
proof (cases "fallbackSentence \<noteq> None \<and> length (the fallbackSentence) > 0")
  case True
  then have "\<exists>f. fallbackSentence = Some f \<and> f \<noteq> []"
    by (cases fallbackSentence) simp_all
  then obtain f where f: "fallbackSentence = Some f" "f \<noteq> []" by blast
  have "has_nonspace f" by (rule assms [OF f])
  then have "ensureSentence f \<noteq> []" using ensureSentence_nonempty by blast
  moreover have "buildSegmentNarration step fallbackSentence sectionConcept sectionTitle stepIndex
          = ensureSentence (the fallbackSentence)"
    unfolding buildSegmentNarration_def using True by (rule if_P)
  ultimately show ?thesis by (simp add: f(1))
next
  case False
  have W: "\<not> is_space (CHR ''W'')" and S: "\<not> is_space (CHR ''S'')"
    by (simp_all add: is_space_def)
  have spot: "ensureSentence (''We spotlight '' @ rest) \<noteq> []" for rest
    using has_nonspace_Cons [OF W] by (simp add: ensureSentence_nonempty)
  have generic: "ensureSentence (''Step '' @ rest) \<noteq> []" for rest
    using has_nonspace_Cons [OF S] by (simp add: ensureSentence_nonempty)
  have descr: "ensureSentence (step_description step) \<noteq> []"
    if "length (trim (step_description step)) > 0"
  proof -
    from that have "trim (step_description step) \<noteq> []" by simp
    then have "has_nonspace (step_description step)" using trim_nonempty by blast
    then show ?thesis using ensureSentence_nonempty by blast
  qed
  show ?thesis
  proof (cases "length (extractStepHighlights step) > 0")
    case hl: True
    show ?thesis
      unfolding buildSegmentNarration_def Let_def if_not_P [OF False] if_P [OF hl]
      by (rule spot)
  next
    case nhl: False
    show ?thesis
    proof (cases "length (trim (step_description step)) > 0")
      case d: True
      show ?thesis
        unfolding buildSegmentNarration_def Let_def if_not_P [OF False] if_not_P [OF nhl]
          if_P [OF d]
        by (rule descr [OF d])
    next
      case nd: False
      show ?thesis
        unfolding buildSegmentNarration_def Let_def if_not_P [OF False] if_not_P [OF nhl]
          if_not_P [OF nd]
        by (rule generic)
    qed
  qed
qed

lemma shouldRegenerate_when:
  assumes "length (sec_segments script) \<noteq> length (ad_steps animationData)
           \<or> card (set (map (\<lambda>seg. toLowerCase (trim (seg_text seg))) (sec_segments script))) \<le> 1"
  shows "shouldRegenerate script animationData"
proof -
  let ?texts = "map (\<lambda>seg. toLowerCase (trim (seg_text seg))) (sec_segments script)"
  have "card (set (filter (\<lambda>t. t \<noteq> []) ?texts)) \<le> card (set ?texts)"
    by (rule card_mono) auto
  then show ?thesis using assms
    by (auto simp: shouldRegenerate_def Let_def)
qed

text \<open>
  Claim C1. For every raw section input whose steps list is not empty,
  \<open>alignSegmentsToSteps\<close> returns a script whose segments list has exactly as many
  entries as there are steps, and every segment of it has a non-empty text. The repair
  step of \<open>analyzePaper\<close> invokes it whenever the segment and step counts differ or the
  set of distinct trimmed lower-cased segment texts has at most one element.
\<close>

theorem alignSegmentsToSteps_repairs:
  assumes "ad_steps animationData \<noteq> []"
  shows "length (sec_segments (alignSegmentsToSteps script animationData narration
                                 sectionId sectionTitle sectionConcept))
           = length (ad_steps animationData)
       \<and> (\<forall>segment \<in> set (sec_segments (alignSegmentsToSteps script animationData narration
                                           sectionId sectionTitle sectionConcept)).
             seg_text segment \<noteq> [])
       \<and> (length (sec_segments script) \<noteq> length (ad_steps animationData)
            \<or> card (set (map (\<lambda>seg. toLowerCase (trim (seg_text seg))) (sec_segments script))) \<le> 1
          \<longrightarrow> repairScript script animationData narration sectionId sectionTitle sectionConcept
                = alignSegmentsToSteps script animationData narration sectionId sectionTitle
                    sectionConcept)"
proof -
  let ?sentences = "splitIntoSentences narration"
  let ?segments = "map (\<lambda>(index, step).
                          alignedSegment ?sentences sectionId sectionTitle sectionConcept index step)
                       (enumerate 0 (ad_steps animationData))"
  have nonempty: "seg_text (alignedSegment ?sentences sectionId sectionTitle
                          sectionConcept index step) \<noteq> []" for index step
  proof -
    have "has_nonspace f" if "nthOpt ?sentences index = Some f" for f
    proof -
      from that have "f \<in> set ?sentences"
        by (cases "index < length ?sentences") (auto simp: nthOpt_def)
      then show ?thesis by (rule sentences_have_nonspace)
    qed
    then have "buildSegmentNarration step (nthOpt ?sentences index) sectionConcept sectionTitle index
                 \<noteq> []"
      by (intro buildSegmentNarration_nonempty)
    then show ?thesis
      by (simp add: alignedSegment_def Let_def)
  qed
  have segs: "sec_segments (alignSegmentsToSteps script animationData narration
                                 sectionId sectionTitle sectionConcept) = ?segments"
    using assms by (simp add: alignSegmentsToSteps_def Let_def)
  have "length ?segments = length (ad_steps animationData)" by simp
  moreover have "\<forall>segment \<in> set ?segments. seg_text segment \<noteq> []"
    using nonempty by auto
  moreover have "repairScript script animationData narration sectionId sectionTitle sectionConcept
                = alignSegmentsToSteps script animationData narration sectionId sectionTitle
                    sectionConcept"
    if "length (sec_segments script) \<noteq> length (ad_steps animationData)
            \<or> card (set (map (\<lambda>seg. toLowerCase (trim (seg_text seg))) (sec_segments script))) \<le> 1"
    using shouldRegenerate_when [OF that] by (simp add: repairScript_def)
  ultimately show ?thesis unfolding segs by blast
qed

theorem alignSegmentsToSteps_repairs_witness:
  "ad_steps scenarioC_steps \<noteq> []
   \<and> length (sec_segments (alignSegmentsToSteps rawScript scenarioC_steps ''Intro'' ''s1''
                               ''Attention'' ''self-attention'')) = 3
   \<and> list_all (\<lambda>segment. seg_text segment \<noteq> [])
        (sec_segments (alignSegmentsToSteps rawScript scenarioC_steps ''Intro'' ''s1''
                         ''Attention'' ''self-attention''))
   \<and> map seg_text (sec_segments (alignSegmentsToSteps rawScript scenarioC_steps ''Intro'' ''s1''
                                   ''Attention'' ''self-attention''))
       = [''Intro.'',
          ''We spotlight Encoder block and Decoder to show how it connects to self-attention.'',
          ''The output is produced.'']
   \<and> length (sec_segments rawScript) \<noteq> length (ad_steps scenarioC_steps)
   \<and> repairScript rawScript scenarioC_steps ''Intro'' ''s1'' ''Attention'' ''self-attention''
       = alignSegmentsToSteps rawScript scenarioC_steps ''Intro'' ''s1'' ''Attention''
           ''self-attention''"
proof -
  have c: "length (sec_segments rawScript) \<noteq> length (ad_steps scenarioC_steps)"
    by (simp add: rawScript_def scenarioC_steps_def)
  have h: "ad_steps scenarioC_steps \<noteq> []" by (simp add: scenarioC_steps_def)
  have n: "length (ad_steps scenarioC_steps) = 3" by (simp add: scenarioC_steps_def)
  have texts: "map seg_text (sec_segments (alignSegmentsToSteps rawScript scenarioC_steps ''Intro''
                                   ''s1'' ''Attention'' ''self-attention''))
       = [''Intro.'',
          ''We spotlight Encoder block and Decoder to show how it connects to self-attention.'',
          ''The output is produced.'']"
    by code_simp
  show ?thesis
    using h c texts alignSegmentsToSteps_repairs [OF h, of rawScript "''Intro''" "''s1''"
        "''Attention''" "''self-attention''"]
    unfolding n list_all_iff by blast
qed

text \<open>
  Claim C2, as the code has it. For every input whose steps list is empty,
  \<open>alignSegmentsToSteps\<close> passes the input script's segments through unchanged and
  builds the rest of the result from its arguments: \<open>sectionId\<close> is the section id it is
  given, \<open>fullText\<close> is the narration it is given, and \<open>totalDuration\<close> is 0. The result
  is therefore the input script unmodified exactly when the input's \<open>sectionId\<close>,
  \<open>fullText\<close> and \<open>totalDuration\<close> already are that id, that narration and 0. The other
  branches of the repair rebuild these three fields the same way.
\<close>

theorem alignSegmentsToSteps_no_steps:
  assumes "ad_steps animationData = []"
  shows "alignSegmentsToSteps script animationData narration sectionId sectionTitle sectionConcept
           = \<lparr> sec_sectionId = sectionId, sec_fullText = narration,
               sec_segments = sec_segments script, sec_totalDuration = 0 \<rparr>
       \<and> ((alignSegmentsToSteps script animationData narration sectionId sectionTitle sectionConcept
             = script)
            = (sec_sectionId script = sectionId \<and> sec_fullText script = narration
               \<and> sec_totalDuration script = 0))"
  using assms by (cases script) (auto simp: alignSegmentsToSteps_def Let_def)

theorem alignSegmentsToSteps_no_steps_witness:
  "ad_steps \<lparr> ad_steps = [] \<rparr> = []
   \<and> alignSegmentsToSteps rawScript \<lparr> ad_steps = [] \<rparr> ''New narration.'' ''section-1'' ''T'' ''C''
       = \<lparr> sec_sectionId = ''section-1'', sec_fullText = ''New narration.'',
           sec_segments = sec_segments rawScript, sec_totalDuration = 0 \<rparr>"
proof -
  have h: "ad_steps \<lparr> ad_steps = [] \<rparr> = []" by simp
  show ?thesis
    using h alignSegmentsToSteps_no_steps [OF h, of rawScript "''New narration.''" "''section-1''"
        "''T''" "''C''"]
    by blast
qed

text \<open>
  Claim C2 as stated fails on a raw script with id \<open>raw\<close>, full text \<open>Old text.\<close> and total
  duration 12, repaired with no steps under the id \<open>section-1\<close> and the narration
  \<open>New narration.\<close>: only the segments are those of the input.
\<close>

theorem alignSegmentsToSteps_no_steps_counterexample:
  "ad_steps \<lparr> ad_steps = [] \<rparr> = []
   \<and> sec_totalDuration rawScript = 12
   \<and> sec_totalDuration (alignSegmentsToSteps rawScript \<lparr> ad_steps = [] \<rparr>
                           ''New narration.'' ''section-1'' ''T'' ''C'') = 0
   \<and> sec_sectionId rawScript = ''raw''
   \<and> sec_sectionId (alignSegmentsToSteps rawScript \<lparr> ad_steps = [] \<rparr>
                        ''New narration.'' ''section-1'' ''T'' ''C'') = ''section-1''
   \<and> sec_fullText rawScript = ''Old text.''
   \<and> sec_fullText (alignSegmentsToSteps rawScript \<lparr> ad_steps = [] \<rparr>
                       ''New narration.'' ''section-1'' ''T'' ''C'') = ''New narration.''
   \<and> alignSegmentsToSteps rawScript \<lparr> ad_steps = [] \<rparr> ''New narration.'' ''section-1'' ''T'' ''C''
       \<noteq> rawScript"
  by (simp add: alignSegmentsToSteps_def rawScript_def Let_def)

end
